theory Spec2Isabelle
  imports Complex_Main "HOL-Library.Sublist" "HOL-Library.Multiset"
begin

section \<open>Personal finance tracker: normaliser, categoriser, aggregator, importer\<close>

text \<open>
  A shallow embedding of \<^verbatim>\<open>src/categorizer.py\<close>, \<^verbatim>\<open>src/csv_import.py\<close> and
  \<^verbatim>\<open>src/database.py\<close>.

  Conventions of the model.
  \<^item> A Python \<^verbatim>\<open>str\<close> is a \<^typ>\<open>string\<close>, and the model is one of ASCII text: case
    mapping, white space and digits are the ASCII ones. The two currency signs outside
    ASCII are their UTF-8 byte sequences. What the code does with other text outside
    ASCII is not part of the model, and no statement below is about such text.
  \<^item> A Python exception is a value of \<open>py_error\<close>; a function that can raise returns
    \<open>py_error + 'a\<close>.
  \<^item> A Python \<^verbatim>\<open>float\<close> is a \<open>pyfloat\<close>: a rational, one of the two infinities, or
    not-a-number. \<^verbatim>\<open>float()\<close> rounds the number it reads to the nearest double, to
    infinity beyond the largest. The two zeros are one: no comparison of the code tells
    them apart.
  \<^item> A value of an SQLite \<^verbatim>\<open>REAL\<close> column is an exact rational, and the sums, products
    and quotients of the queries are exact: the rounding of that arithmetic is not
    modelled.
\<close>

subsection \<open>Python values\<close>

datatype py_error = ValueError | IndexError | AttributeError | OverflowError

datatype pyfloat = Num rat | PosInf | NegInf | NaN

text \<open>\<^verbatim>\<open>x > 0\<close> on a float: false for not-a-number.\<close>

fun gt_zero :: "pyfloat \<Rightarrow> bool" where
  "gt_zero (Num r) = (0 < r)"
| "gt_zero PosInf = True"
| "gt_zero NegInf = False"
| "gt_zero NaN = False"

fun py_abs :: "pyfloat \<Rightarrow> pyfloat" where
  "py_abs (Num r) = Num \<bar>r\<bar>"
| "py_abs PosInf = PosInf"
| "py_abs NegInf = PosInf"
| "py_abs NaN = NaN"

fun py_neg :: "pyfloat \<Rightarrow> pyfloat" where
  "py_neg (Num r) = Num (- r)"
| "py_neg PosInf = NegInf"
| "py_neg NegInf = PosInf"
| "py_neg NaN = NaN"

text \<open>\<^verbatim>\<open>str.lower()\<close> on ASCII: the letters A to Z (codes 65 to 90) move up by 32.\<close>

definition lower_char :: "char \<Rightarrow> char" where
  "lower_char c =
     (let n = (of_char c :: nat) in if 65 \<le> n \<and> n \<le> 90 then char_of (n + 32) else c)"

definition lower :: "string \<Rightarrow> string" where
  "lower s = map lower_char s"

text \<open>\<^verbatim>\<open>k in s\<close> on strings is \<^const>\<open>sublist\<close>; \<^verbatim>\<open>s.startswith(p)\<close> is \<^const>\<open>prefix\<close>.\<close>

subsection \<open>The categoriser (\<^verbatim>\<open>categorizer.py\<close>)\<close>

text \<open>
  \<^verbatim>\<open>self.category_keywords\<close> is a dict, iterated in insertion order: an association list.
\<close>

type_synonym rule_table = "(string \<times> string list) list"

definition category_keywords :: rule_table where
  "category_keywords =
    [(''Food & Dining'',
        [''restaurant'', ''cafe'', ''food'', ''grocery'', ''supermarket'',
         ''starbucks'', ''mcdonald'', ''pizza'', ''burger'', ''delivery'',
         ''uber eats'', ''doordash'', ''grubhub'', ''dining'']),
     (''Transportation'',
        [''gas'', ''fuel'', ''uber'', ''lyft'', ''taxi'', ''parking'',
         ''car wash'', ''toll'', ''metro'', ''bus'', ''train'', ''subway'',
         ''vehicle'', ''maintenance'', ''repair'']),
     (''Shopping'',
        [''amazon'', ''walmart'', ''target'', ''mall'', ''store'',
         ''clothing'', ''shoes'', ''electronics'', ''online shopping'',
         ''ebay'', ''etsy'', ''fashion'', ''retail'']),
     (''Bills & Utilities'',
        [''electric'', ''water'', ''gas bill'', ''internet'', ''phone'',
         ''cable'', ''insurance'', ''rent'', ''mortgage'', ''utility'',
         ''subscription'', ''netflix'', ''spotify'', ''hulu'']),
     (''Entertainment'',
        [''movie'', ''cinema'', ''theater'', ''concert'', ''game'',
         ''streaming'', ''hobby'', ''sports'', ''gym'', ''fitness'',
         ''recreation'', ''amusement'', ''ticket'']),
     (''Healthcare'',
        [''pharmacy'', ''doctor'', ''hospital'', ''clinic'', ''medical'',
         ''dentist'', ''prescription'', ''health'', ''medicine'',
         ''therapy'', ''wellness'']),
     (''Salary'',
        [''salary'', ''payroll'', ''wages'', ''paycheck'', ''employer'',
         ''direct deposit'', ''income'']),
     (''Freelance'',
        [''freelance'', ''consulting'', ''contract'', ''gig'',
         ''side job'', ''project payment''])]"

text \<open>The inner loop of \<^verbatim>\<open>categorize\<close>: does some keyword occur in the description?\<close>

fun scan_keywords :: "string list \<Rightarrow> string \<Rightarrow> bool" where
  "scan_keywords [] description_lower = False"
| "scan_keywords (keyword # keywords) description_lower =
     (if sublist keyword description_lower then True
      else scan_keywords keywords description_lower)"

text \<open>The outer loop, with the default after it.\<close>

fun scan_table :: "rule_table \<Rightarrow> string \<Rightarrow> string" where
  "scan_table [] description_lower = ''Other Expenses''"
| "scan_table ((category, keywords) # rest) description_lower =
     (if scan_keywords keywords description_lower then category
      else scan_table rest description_lower)"

definition categorize :: "rule_table \<Rightarrow> string \<Rightarrow> string" where
  "categorize tbl description = scan_table tbl (lower description)"

text \<open>\<^verbatim>\<open>any(word in description.lower() for word in words)\<close>\<close>

definition any_word_in :: "string list \<Rightarrow> string \<Rightarrow> bool" where
  "any_word_in ws description = list_ex (\<lambda>word. sublist word (lower description)) ws"

definition get_suggested_category :: "rule_table \<Rightarrow> string \<Rightarrow> pyfloat \<Rightarrow> string" where
  "get_suggested_category tbl description amount =
     (let base_category = categorize tbl description in
      if gt_zero amount \<and> prefix ''Other'' base_category then
        if any_word_in [''salary'', ''payroll'', ''employer''] description then ''Salary''
        else if any_word_in [''freelance'', ''consulting'', ''contract''] description
          then ''Freelance''
        else ''Other Income''
      else base_category)"

text \<open>
  The rule of \<^verbatim>\<open>categorize\<close> in the words of the specification: the first table entry, in
  table order, one of whose keywords occurs in the lowercased description; the default
  when there is none.
\<close>

definition categorize_spec :: "rule_table \<Rightarrow> string \<Rightarrow> string" where
  "categorize_spec tbl description =
     (case find (\<lambda>(category, keywords).
                   list_ex (\<lambda>k. sublist k (lower description)) keywords) tbl of
        None \<Rightarrow> ''Other Expenses''
      | Some (category, keywords) \<Rightarrow> category)"

subsection \<open>Text and numbers as SQLite and Python format them\<close>

text \<open>
  SQLite compares \<^verbatim>\<open>TEXT\<close> values byte by byte; a proper prefix is smaller. The
  \<^verbatim>\<open>date\<close> column is \<^verbatim>\<open>TEXT\<close>, so every date comparison of a query is this one.
\<close>

fun str_less :: "string \<Rightarrow> string \<Rightarrow> bool" where
  "str_less [] [] = False"
| "str_less [] (y # ys) = True"
| "str_less (x # xs) [] = False"
| "str_less (x # xs) (y # ys) =
     ((of_char x :: nat) < of_char y \<or> (x = y \<and> str_less xs ys))"

definition str_le :: "string \<Rightarrow> string \<Rightarrow> bool" where
  "str_le a b = (a = b \<or> str_less a b)"

text \<open>The character of a decimal digit.\<close>

definition digit_char :: "nat \<Rightarrow> char" where
  "digit_char n = ''0123456789'' ! n"

text \<open>\<^verbatim>\<open>str(n)\<close> for a natural number: its decimal digits.\<close>

fun str_nat :: "nat \<Rightarrow> string" where
  "str_nat n = (if n < 10 then [digit_char n] else str_nat (n div 10) @ [digit_char (n mod 10)])"

declare str_nat.simps [simp del]

text \<open>\<^verbatim>\<open>f"{i}"\<close> for an integer.\<close>

definition str_int :: "int \<Rightarrow> string" where
  "str_int i = (if i < 0 then CHR ''-'' # str_nat (nat (- i)) else str_nat (nat i))"

text \<open>\<^verbatim>\<open>f"{i:02d}"\<close>: padded with zeros to two characters, the sign counted.\<close>

definition fmt_02d :: "int \<Rightarrow> string" where
  "fmt_02d i = (if 0 \<le> i \<and> i < 10 then CHR ''0'' # str_int i else str_int i)"

text \<open>Padding with zeros on the left up to a width, as \<^verbatim>\<open>%02d\<close> and \<^verbatim>\<open>%04d\<close> do.\<close>

definition zfill :: "nat \<Rightarrow> string \<Rightarrow> string" where
  "zfill w s = replicate (w - length s) (CHR ''0'') @ s"

text \<open>
  A calendar date, as \<^verbatim>\<open>datetime\<close> holds it, and \<^verbatim>\<open>dt.strftime('%Y-%m-%d')\<close>: the
  canonical rendering, with a year of four digits and a month and a day of two.
\<close>

datatype pydate = Date (d_year: nat) (d_month: nat) (d_day: nat)

definition strftime_iso :: "pydate \<Rightarrow> string" where
  "strftime_iso dt =
     zfill 4 (str_nat (d_year dt)) @ ''-'' @ zfill 2 (str_nat (d_month dt)) @ ''-''
       @ zfill 2 (str_nat (d_day dt))"

text \<open>The calendar order of two dates: by year, then month, then day.\<close>

definition date_less :: "pydate \<Rightarrow> pydate \<Rightarrow> bool" where
  "date_less a b =
     (d_year a < d_year b
      \<or> (d_year a = d_year b
         \<and> (d_month a < d_month b \<or> (d_month a = d_month b \<and> d_day a < d_day b))))"

text \<open>The dates that the canonical rendering writes with four, two and two digits.\<close>

definition fits_iso :: "pydate \<Rightarrow> bool" where
  "fits_iso a = (d_year a < 10000 \<and> d_month a < 100 \<and> d_day a < 100)"

subsection \<open>The store (\<^verbatim>\<open>database.py\<close>)\<close>

text \<open>
  The rows of the tables \<^verbatim>\<open>transactions\<close> and \<^verbatim>\<open>categories\<close>, in insertion order.
  The column \<^verbatim>\<open>created_at\<close> is read by no query and is left out.
\<close>

record txn =
  t_id :: int
  t_date :: string
  t_description :: string
  t_amount :: rat
  t_category :: string
  t_type :: string

record category =
  c_name :: string
  c_budget_limit :: rat
  c_type :: string

record finance_db =
  transactions :: "txn list"
  categories :: "category list"
  last_rowid :: int

definition default_categories :: "category list" where
  "default_categories =
    [\<lparr>c_name = ''Food & Dining'', c_budget_limit = 500, c_type = ''expense''\<rparr>,
     \<lparr>c_name = ''Transportation'', c_budget_limit = 200, c_type = ''expense''\<rparr>,
     \<lparr>c_name = ''Shopping'', c_budget_limit = 300, c_type = ''expense''\<rparr>,
     \<lparr>c_name = ''Bills & Utilities'', c_budget_limit = 400, c_type = ''expense''\<rparr>,
     \<lparr>c_name = ''Entertainment'', c_budget_limit = 150, c_type = ''expense''\<rparr>,
     \<lparr>c_name = ''Healthcare'', c_budget_limit = 200, c_type = ''expense''\<rparr>,
     \<lparr>c_name = ''Other Expenses'', c_budget_limit = 100, c_type = ''expense''\<rparr>,
     \<lparr>c_name = ''Salary'', c_budget_limit = 0, c_type = ''income''\<rparr>,
     \<lparr>c_name = ''Freelance'', c_budget_limit = 0, c_type = ''income''\<rparr>,
     \<lparr>c_name = ''Other Income'', c_budget_limit = 0, c_type = ''income''\<rparr>]"

text \<open>A new store: no transaction, the default categories.\<close>

definition new_db :: finance_db where
  "new_db = \<lparr>transactions = [], categories = default_categories, last_rowid = 0\<rparr>"

text \<open>\<^verbatim>\<open>add_transaction\<close> inserts a row and returns \<^verbatim>\<open>lastrowid\<close>.\<close>

definition add_transaction ::
  "string \<Rightarrow> string \<Rightarrow> rat \<Rightarrow> string \<Rightarrow> string \<Rightarrow> finance_db \<Rightarrow> int \<times> finance_db" where
  "add_transaction date description amount category trans_type db =
     (let rowid = last_rowid db + 1 in
      (rowid,
       db\<lparr>transactions := transactions db @
             [\<lparr>t_id = rowid, t_date = date, t_description = description, t_amount = amount,
               t_category = category, t_type = trans_type\<rparr>],
          last_rowid := rowid\<rparr>))"

text \<open>
  \<^verbatim>\<open>UPDATE categories SET budget_limit = ? WHERE name = ?\<close>. The statement changes the
  rows that match, none when there is none, and raises nothing.
\<close>

definition update_budget_limit :: "string \<Rightarrow> rat \<Rightarrow> finance_db \<Rightarrow> py_error + finance_db" where
  "update_budget_limit category new_limit db =
     Inr (db\<lparr>categories :=
            map (\<lambda>c. if c_name c = category then c\<lparr>c_budget_limit := new_limit\<rparr> else c)
              (categories db)\<rparr>)"

text \<open>
  \<^verbatim>\<open>DELETE FROM transactions WHERE id = ?\<close>. The id is bound as a signed integer of 64
  bits: for a Python \<^verbatim>\<open>int\<close> outside that range \<^verbatim>\<open>sqlite3\<close> raises \<^verbatim>\<open>OverflowError\<close>
  before the statement runs. Within the range the statement deletes the rows that match,
  none when there is none, and raises nothing.
\<close>

definition delete_transaction :: "int \<Rightarrow> finance_db \<Rightarrow> py_error + finance_db" where
  "delete_transaction transaction_id db =
     (if - (2 ^ 63) \<le> transaction_id \<and> transaction_id < 2 ^ 63
      then Inr (db\<lparr>transactions :=
                    filter (\<lambda>t. t_id t \<noteq> transaction_id) (transactions db)\<rparr>)
      else Inl OverflowError)"

subsection \<open>The aggregator (\<^verbatim>\<open>database.py\<close>)\<close>

text \<open>
  The two bounds that \<^verbatim>\<open>get_monthly_summary\<close> and \<^verbatim>\<open>check_budget_alerts\<close> compute.
\<close>

definition month_start :: "int \<Rightarrow> int \<Rightarrow> string" where
  "month_start year month = str_int year @ ''-'' @ fmt_02d month @ ''-01''"

definition month_end :: "int \<Rightarrow> int \<Rightarrow> string" where
  "month_end year month =
     (if month = 12 then str_int (year + 1) @ ''-01-01''
      else str_int year @ ''-'' @ fmt_02d (month + 1) @ ''-01'')"

text \<open>\<^verbatim>\<open>date >= ? AND date < ?\<close>\<close>

definition in_half_open :: "string \<Rightarrow> string \<Rightarrow> string \<Rightarrow> bool" where
  "in_half_open start_date end_date d = (str_le start_date d \<and> str_less d end_date)"

text \<open>\<^verbatim>\<open>date BETWEEN ? AND ?\<close>\<close>

definition in_between :: "string \<Rightarrow> string \<Rightarrow> string \<Rightarrow> bool" where
  "in_between start_date end_date d = (str_le start_date d \<and> str_le d end_date)"

text \<open>
  \<^verbatim>\<open>SELECT k, SUM(amount) ... GROUP BY k\<close>: one row for each key that occurs, with the sum
  of the amounts of its rows.
\<close>

definition group_sum :: "('r \<Rightarrow> 'k) \<Rightarrow> ('r \<Rightarrow> rat) \<Rightarrow> 'r list \<Rightarrow> ('k \<times> rat) list" where
  "group_sum key val rows =
     map (\<lambda>k. (k, sum_list (map val (filter (\<lambda>r. key r = k) rows)))) (remdups (map key rows))"

text \<open>
  \<^verbatim>\<open>ORDER BY e DESC\<close> with one sort key: the rows of the query, arranged so that the key
  never increases. SQL leaves the order of rows with equal keys to the engine, and the
  query gives no second key, so any such arrangement is a possible result.
\<close>

definition order_by_desc :: "('r \<Rightarrow> rat) \<Rightarrow> 'r list \<Rightarrow> 'r list \<Rightarrow> bool" where
  "order_by_desc key rows out =
     (mset out = mset rows \<and> sorted_wrt (\<lambda>a b. key b \<le> key a) out)"

text \<open>\<^verbatim>\<open>get_category_spending\<close>: \<open>out\<close> is a possible result of the query.\<close>

definition category_spending_rows :: "finance_db \<Rightarrow> string \<Rightarrow> string \<Rightarrow> (string \<times> rat) list" where
  "category_spending_rows db start_date end_date =
     group_sum t_category t_amount
       (filter (\<lambda>t. t_type t = ''expense'' \<and> in_between start_date end_date (t_date t))
          (transactions db))"

definition get_category_spending ::
  "finance_db \<Rightarrow> string \<Rightarrow> string \<Rightarrow> (string \<times> rat) list \<Rightarrow> bool" where
  "get_category_spending db start_date end_date out =
     order_by_desc snd (category_spending_rows db start_date end_date) out"

record summary =
  s_income :: rat
  s_expenses :: rat
  s_balance :: rat
  s_month :: string

text \<open>\<^verbatim>\<open>results.get(k, 0)\<close> on \<^verbatim>\<open>dict(rows)\<close>\<close>

definition dict_get :: "(string \<times> rat) list \<Rightarrow> string \<Rightarrow> rat \<Rightarrow> rat" where
  "dict_get rows k dflt = (case map_of rows k of None \<Rightarrow> dflt | Some v \<Rightarrow> v)"

definition get_monthly_summary :: "finance_db \<Rightarrow> int \<Rightarrow> int \<Rightarrow> summary" where
  "get_monthly_summary db year month =
     (let start_date = month_start year month;
          end_date = month_end year month;
          results = group_sum t_type t_amount
                      (filter (\<lambda>t. in_half_open start_date end_date (t_date t))
                         (transactions db));
          income = dict_get results ''income'' 0;
          expenses = dict_get results ''expense'' 0
      in \<lparr>s_income = income, s_expenses = expenses, s_balance = income - expenses,
          s_month = str_int year @ ''-'' @ fmt_02d month\<rparr>)"

record alert =
  a_category :: string
  a_spent :: rat
  a_limit :: rat
  a_percentage :: rat

text \<open>
  The query of \<^verbatim>\<open>check_budget_alerts\<close> before its \<^verbatim>\<open>ORDER BY\<close>: the join of the
  transactions with the categories on the name, the \<^verbatim>\<open>WHERE\<close> filter, the groups by
  \<^verbatim>\<open>(t.category, c.budget_limit)\<close>, and the \<^verbatim>\<open>HAVING\<close> filter.
\<close>

definition alert_join :: "finance_db \<Rightarrow> int \<Rightarrow> int \<Rightarrow> (txn \<times> category) list" where
  "alert_join db year month =
     filter (\<lambda>(t, c). t_type t = ''expense''
                \<and> in_half_open (month_start year month) (month_end year month) (t_date t)
                \<and> 0 < c_budget_limit c)
       (concat (map (\<lambda>t. map (\<lambda>c. (t, c)) (filter (\<lambda>c. t_category t = c_name c)
                                               (categories db)))
                  (transactions db)))"

definition alert_rows :: "finance_db \<Rightarrow> int \<Rightarrow> int \<Rightarrow> alert list" where
  "alert_rows db year month =
     map (\<lambda>((cat, lim), spent).
            \<lparr>a_category = cat, a_spent = spent, a_limit = lim,
             a_percentage = spent / lim * 100\<rparr>)
       (filter (\<lambda>((cat, lim), spent). lim * (8 / 10) \<le> spent)
          (group_sum (\<lambda>(t, c). (t_category t, c_budget_limit c)) (\<lambda>(t, c). t_amount t)
             (alert_join db year month)))"

definition check_budget_alerts :: "finance_db \<Rightarrow> int \<Rightarrow> int \<Rightarrow> alert list \<Rightarrow> bool" where
  "check_budget_alerts db year month alerts =
     order_by_desc a_percentage (alert_rows db year month) alerts"

text \<open>
  The label that both callers (\<^verbatim>\<open>main.py\<close> and \<^verbatim>\<open>analyzer.py\<close>) print for an alert; the
  alert itself has no such field.
\<close>

datatype severity = EXCEEDED | WARNING

definition alert_status :: "alert \<Rightarrow> severity" where
  "alert_status a = (if 100 \<le> a_percentage a then EXCEEDED else WARNING)"

text \<open>
  The sum that the query forms for a category: the amounts of the transactions of type
  \<open>expense\<close> of that category whose date, as text, lies between the two bounds that the
  code computes.
\<close>

definition month_spent :: "finance_db \<Rightarrow> int \<Rightarrow> int \<Rightarrow> string \<Rightarrow> rat" where
  "month_spent db year month cat =
     sum_list (map t_amount
       (filter (\<lambda>t. t_category t = cat \<and> t_type t = ''expense''
                  \<and> in_half_open (month_start year month) (month_end year month) (t_date t))
          (transactions db)))"

text \<open>
  The dates of a calendar month, as the specification means them: a text is in the month
  when it is the canonical rendering of one of its days.
\<close>

definition in_calendar_month :: "int \<Rightarrow> int \<Rightarrow> string \<Rightarrow> bool" where
  "in_calendar_month year month s =
     list_ex (\<lambda>day. s = strftime_iso (Date (nat year) (nat month) day)) [1 ..< 32]"

text \<open>
  What a category has spent in a calendar month: the sum of the amounts of its
  transactions of type \<open>expense\<close> that are dated in the month.
\<close>

definition calendar_spent :: "finance_db \<Rightarrow> int \<Rightarrow> int \<Rightarrow> string \<Rightarrow> rat" where
  "calendar_spent db year month cat =
     sum_list (map t_amount
       (filter (\<lambda>t. t_category t = cat \<and> t_type t = ''expense''
                  \<and> in_calendar_month year month (t_date t))
          (transactions db)))"

subsection \<open>The normaliser (\<^verbatim>\<open>csv_import.py\<close>)\<close>

text \<open>
  White space as \<^verbatim>\<open>str.strip()\<close> and the \<^verbatim>\<open>\s\<close> of a regular expression see it in ASCII:
  the codes 9 to 13 and 28 to 32.
\<close>

definition is_space :: "char \<Rightarrow> bool" where
  "is_space c = (let n = (of_char c :: nat) in (9 \<le> n \<and> n \<le> 13) \<or> (28 \<le> n \<and> n \<le> 32))"

definition strip :: "string \<Rightarrow> string" where
  "strip s = rev (dropWhile is_space (rev (dropWhile is_space s)))"

text \<open>
  \<^verbatim>\<open>s.replace(old, new)\<close>, from left to right, for the patterns of the code, none of
  which is empty.
\<close>

function replace :: "string \<Rightarrow> string \<Rightarrow> string \<Rightarrow> string" where
  "replace old new s =
     (if s = [] \<or> old = [] then s
      else if prefix old s then new @ replace old new (drop (length old) s)
      else hd s # replace old new (tl s))"
  by pat_completeness auto
termination
  by (relation "measure (\<lambda>(old, new, s). length s)") auto

declare replace.simps [simp del]

text \<open>The euro sign and the pound sign in UTF-8.\<close>

definition euro :: string where
  "euro = [CHR 0xE2, CHR 0x82, CHR 0xAC]"

definition pound :: string where
  "pound = [CHR 0xC2, CHR 0xA3]"

definition is_digit :: "char \<Rightarrow> bool" where
  "is_digit c = (c \<in> set ''0123456789'')"

definition digit_val :: "char \<Rightarrow> nat" where
  "digit_val c = of_char c - 48"

text \<open>The number that a string of decimal digits writes.\<close>

definition int_digits :: "string \<Rightarrow> nat" where
  "int_digits ds = foldl (\<lambda>a c. 10 * a + digit_val c) 0 ds"

text \<open>
  \<^verbatim>\<open>float(s)\<close> on an ASCII string, in the three steps of CPython. First the underscores:
  one is allowed only between two digits, and all are then dropped. \<open>prev\<close> is the
  character before, the null character at the start.
\<close>

fun underscores_ok :: "char \<Rightarrow> string \<Rightarrow> bool" where
  "underscores_ok prev [] = (prev \<noteq> CHR ''_'')"
| "underscores_ok prev (c # cs) =
     ((if c = CHR ''_'' then is_digit prev
       else if prev = CHR ''_'' then is_digit c else True)
      \<and> underscores_ok c cs)"

text \<open>
  Then the white space around the number, which here is that of C: the codes 9 to 13 and
  32 only.
\<close>

definition c_isspace :: "char \<Rightarrow> bool" where
  "c_isspace c = (let n = (of_char c :: nat) in (9 \<le> n \<and> n \<le> 13) \<or> n = 32)"

definition c_trim :: "string \<Rightarrow> string" where
  "c_trim s = rev (dropWhile c_isspace (rev (dropWhile c_isspace s)))"

text \<open>
  Then the number, which must fill the rest: a sign, and either \<^verbatim>\<open>inf\<close>, \<^verbatim>\<open>infinity\<close> or
  \<^verbatim>\<open>nan\<close> in any case, or digits with an optional point and an optional exponent, with a
  digit before or after the point. The value is rounded to a double.
\<close>

definition split_sign :: "string \<Rightarrow> bool \<times> string" where
  "split_sign s =
     (case s of
        [] \<Rightarrow> (False, s)
      | c # cs \<Rightarrow> if c = CHR ''-'' then (True, cs) else if c = CHR ''+'' then (False, cs)
                 else (False, s))"

definition exponent :: "string \<Rightarrow> int option" where
  "exponent s =
     (case s of
        [] \<Rightarrow> Some 0
      | c # cs \<Rightarrow>
          if c = CHR ''e'' \<or> c = CHR ''E'' then
            (let (neg, ds) = split_sign cs in
             if ds \<noteq> [] \<and> list_all is_digit ds
             then Some (if neg then - int (int_digits ds) else int (int_digits ds))
             else None)
          else None)"

definition pow10 :: "int \<Rightarrow> rat" where
  "pow10 k = (if 0 \<le> k then 10 ^ nat k else 1 / 10 ^ nat (- k))"

text \<open>
  The rounding of \<^verbatim>\<open>float()\<close>: to the nearest double, to the even one of two that are
  equally near. A double has 53 bits; between \<open>2 ^ e\<close> and \<open>2 ^ (e + 1)\<close> the doubles are
  \<open>2 ^ (e - 52)\<close> apart, and \<open>2 ^ (- 1074)\<close> apart below \<open>2 ^ (- 1022)\<close>; what rounds to
  \<open>2 ^ 1024\<close> or more is infinite.
\<close>

definition pow2 :: "int \<Rightarrow> rat" where
  "pow2 k = (if 0 \<le> k then 2 ^ nat k else 1 / 2 ^ nat (- k))"

fun ilog2 :: "nat \<Rightarrow> nat" where
  "ilog2 n = (if n < 2 then 0 else Suc (ilog2 (n div 2)))"

declare ilog2.simps [simp del]

text \<open>The \<open>e\<close> with \<open>2 ^ e \<le> x < 2 ^ (e + 1)\<close>, for a positive \<open>x\<close>.\<close>

definition binary_exponent :: "rat \<Rightarrow> int" where
  "binary_exponent x =
     (let (p, q) = quotient_of x;
          k = int (ilog2 (nat p)) - int (ilog2 (nat q))
      in if pow2 k \<le> x then k else k - 1)"

definition round_half_even :: "rat \<Rightarrow> int" where
  "round_half_even x =
     (let f = \<lfloor>x\<rfloor>; r = x - of_int f
      in if r < 1 / 2 then f else if 1 / 2 < r then f + 1
         else if even f then f else f + 1)"

definition round_double :: "rat \<Rightarrow> pyfloat" where
  "round_double x =
     (if x = 0 then Num 0
      else
        (let a = \<bar>x\<bar>;
             e = max (binary_exponent a) (- 1022);
             ulp = pow2 (e - 52);
             r = of_int (round_half_even (a / ulp)) * ulp
         in if pow2 1024 \<le> r then (if 0 < x then PosInf else NegInf)
            else Num (if 0 < x then r else - r)))"

definition float_literal :: "string \<Rightarrow> pyfloat option" where
  "float_literal s =
     (let (neg, t) = split_sign s in
      if lower t = ''inf'' \<or> lower t = ''infinity'' then Some (if neg then NegInf else PosInf)
      else if lower t = ''nan'' then Some NaN
      else
        (let ip = takeWhile is_digit t;
             r1 = dropWhile is_digit t;
             (fp, r2) = (case r1 of
                           [] \<Rightarrow> ([], r1)
                         | c # cs \<Rightarrow> if c = CHR ''.''
                                    then (takeWhile is_digit cs, dropWhile is_digit cs)
                                    else ([], r1))
         in if ip = [] \<and> fp = [] then None
            else (case exponent r2 of
                    None \<Rightarrow> None
                  | Some e \<Rightarrow>
                      Some (round_double
                              ((if neg then - 1 else 1) * of_nat (int_digits (ip @ fp))
                                 * pow10 (e - int (length fp)))))))"

definition py_float :: "string \<Rightarrow> py_error + pyfloat" where
  "py_float s =
     (if underscores_ok (CHR 0x00) s then
        (case float_literal (c_trim (filter (\<lambda>c. c \<noteq> CHR ''_'') s)) of
           None \<Rightarrow> Inl ValueError
         | Some x \<Rightarrow> Inr x)
      else Inl ValueError)"

text \<open>\<^verbatim>\<open>_parse_amount\<close>\<close>

definition parse_amount :: "string \<Rightarrow> py_error + pyfloat" where
  "parse_amount amount_str =
     (let s1 = strip amount_str;
          s2 = replace euro [] (replace ''$'' [] s1);
          s3 = replace '','' [] (replace pound [] s2);
          s4 = (if CHR ''('' \<in> set s3 \<and> CHR '')'' \<in> set s3
                then replace '')'' [] (replace ''('' ''-'' s3) else s3)
      in py_float s4)"

text \<open>
  \<^verbatim>\<open>datetime.strptime\<close> turns a format into a regular expression and matches it at the
  start of the string, with backtracking. A matcher gives every way to match a prefix,
  as the matched text and the rest, in the order in which backtracking tries them.
  The digits and the white space of the expressions are those of ASCII.
\<close>

type_synonym matcher = "string \<Rightarrow> (string \<times> string) list"

text \<open>One character of a class, as \<^verbatim>\<open>[0-2]\<close>.\<close>

definition chr_in :: "string \<Rightarrow> matcher" where
  "chr_in cls s = (case s of [] \<Rightarrow> [] | c # cs \<Rightarrow> if c \<in> set cls then [([c], cs)] else [])"

text \<open>One matcher after another, and one or else another.\<close>

definition then_m :: "matcher \<Rightarrow> matcher \<Rightarrow> matcher" where
  "then_m p q s = concat (map (\<lambda>(a, r). map (\<lambda>(b, r'). (a @ b, r')) (q r)) (p s))"

definition or_m :: "matcher \<Rightarrow> matcher \<Rightarrow> matcher" where
  "or_m p q s = p s @ q s"

text \<open>A word, whatever the case of its letters: the expression is compiled with \<^verbatim>\<open>IGNORECASE\<close>.\<close>

definition word_m :: "string \<Rightarrow> matcher" where
  "word_m w s =
     (if length w \<le> length s \<and> lower (take (length w) s) = lower w
      then [(take (length w) s, drop (length w) s)] else [])"

text \<open>The first of several words that matches, in the order of the list.\<close>

definition words_m :: "string list \<Rightarrow> matcher" where
  "words_m ws s = concat (map (\<lambda>w. word_m w s) ws)"

text \<open>\<^verbatim>\<open>\s+\<close>: one or more white space characters, the longest run first.\<close>

definition spaces_m :: matcher where
  "spaces_m s =
     map (\<lambda>k. (take k s, drop k s)) (rev [1 ..< Suc (length (takeWhile is_space s))])"

text \<open>The month names of the C locale, with the empty name at index 0.\<close>

definition month_abbr :: "string list" where
  "month_abbr = ['''', ''Jan'', ''Feb'', ''Mar'', ''Apr'', ''May'', ''Jun'', ''Jul'', ''Aug'',
                 ''Sep'', ''Oct'', ''Nov'', ''Dec'']"

definition month_name :: "string list" where
  "month_name = ['''', ''January'', ''February'', ''March'', ''April'', ''May'', ''June'', ''July'',
                 ''August'', ''September'', ''October'', ''November'', ''December'']"

definition a_month :: "string list" where
  "a_month = map lower month_abbr"

definition f_month :: "string list" where
  "f_month = map lower month_name"

text \<open>
  The expression of each directive that the formats of \<^verbatim>\<open>_parse_date\<close> use:
  \<^verbatim>\<open>%Y\<close> is \<^verbatim>\<open>\d\d\d\d\<close>, \<^verbatim>\<open>%m\<close> is \<^verbatim>\<open>1[0-2]|0[1-9]|[1-9]\<close>, \<^verbatim>\<open>%d\<close> is
  \<^verbatim>\<open>3[0-1]|[1-2]\d|0[1-9]|[1-9]| [1-9]\<close>, and \<^verbatim>\<open>%b\<close> and \<^verbatim>\<open>%B\<close> are the month names, the
  longest first. No other directive is modelled.
\<close>

definition digit_m :: matcher where
  "digit_m = chr_in ''0123456789''"

definition nonzero_m :: matcher where
  "nonzero_m = chr_in ''123456789''"

definition field_re :: "char \<Rightarrow> matcher" where
  "field_re k =
     (if k = CHR ''Y'' then then_m digit_m (then_m digit_m (then_m digit_m digit_m))
      else if k = CHR ''m'' then
        or_m (then_m (chr_in ''1'') (chr_in ''012''))
          (or_m (then_m (chr_in ''0'') nonzero_m) nonzero_m)
      else if k = CHR ''d'' then
        or_m (then_m (chr_in ''3'') (chr_in ''01''))
          (or_m (then_m (chr_in ''12'') digit_m)
            (or_m (then_m (chr_in ''0'') nonzero_m)
              (or_m nonzero_m (then_m (chr_in '' '') nonzero_m))))
      else if k = CHR ''b'' then words_m (tl a_month)
      else if k = CHR ''B'' then
        words_m [''september'', ''february'', ''november'', ''december'', ''january'',
                 ''october'', ''august'', ''march'', ''april'', ''june'', ''july'', ''may'']
      else (\<lambda>s. []))"

text \<open>
  A format is a sequence of directives, of runs of white space, which become \<^verbatim>\<open>\s+\<close>, and
  of other characters, which stand for themselves.
\<close>

datatype directive = Field char | Whitespace | Literal char

function compile_format :: "string \<Rightarrow> directive list" where
  "compile_format [] = []"
| "compile_format (c # cs) =
     (if c = CHR ''%'' then
        (case cs of [] \<Rightarrow> [] | k # ks \<Rightarrow> Field k # compile_format ks)
      else if is_space c then Whitespace # compile_format (dropWhile is_space cs)
      else Literal c # compile_format cs)"
  by pat_completeness auto
termination
  by (relation "measure length") (auto simp: length_dropWhile_le less_Suc_eq_le)

definition directive_re :: "directive \<Rightarrow> matcher" where
  "directive_re d =
     (case d of Field k \<Rightarrow> field_re k | Whitespace \<Rightarrow> spaces_m | Literal c \<Rightarrow> word_m [c])"

text \<open>
  The matches of a whole format: the texts of its directives, by their letters, and the
  rest of the string.
\<close>

definition group :: "directive \<Rightarrow> string \<Rightarrow> (char \<times> string) list" where
  "group d txt = (case d of Field k \<Rightarrow> [(k, txt)] | Whitespace \<Rightarrow> [] | Literal c \<Rightarrow> [])"

fun match_format :: "directive list \<Rightarrow> string \<Rightarrow> ((char \<times> string) list \<times> string) list" where
  "match_format [] s = [([], s)]"
| "match_format (d # ds) s =
     concat (map (\<lambda>(txt, r). map (\<lambda>(found, r'). (group d txt @ found, r')) (match_format ds r))
               (directive_re d s))"

text \<open>The dates that \<^verbatim>\<open>datetime\<close> accepts: the years 1 to 9999 of the Gregorian calendar.\<close>

definition is_leap :: "nat \<Rightarrow> bool" where
  "is_leap y = (y mod 4 = 0 \<and> (0 < y mod 100 \<or> y mod 400 = 0))"

definition days_in_month :: "nat \<Rightarrow> nat \<Rightarrow> nat" where
  "days_in_month y m =
     (if m = 2 then (if is_leap y then 29 else 28)
      else if m \<in> set [4, 6, 9, 11] then 30 else 31)"

definition valid_date :: "nat \<Rightarrow> nat \<Rightarrow> nat \<Rightarrow> bool" where
  "valid_date y m d =
     (1 \<le> y \<and> y \<le> 9999 \<and> 1 \<le> m \<and> m \<le> 12 \<and> 1 \<le> d \<and> d \<le> days_in_month y m)"

text \<open>\<^verbatim>\<open>list.index\<close> of an element that occurs.\<close>

definition index_of :: "'a list \<Rightarrow> 'a \<Rightarrow> nat" where
  "index_of xs x = length (takeWhile (\<lambda>y. y \<noteq> x) xs)"

text \<open>
  \<^verbatim>\<open>datetime.strptime(data_string, format)\<close>: the first match of the expression must end
  where the string ends, and its fields must make a date. Every failure is a
  \<^verbatim>\<open>ValueError\<close>.
\<close>

definition strptime :: "string \<Rightarrow> string \<Rightarrow> py_error + pydate" where
  "strptime data_string format =
     (case match_format (compile_format format) data_string of
        [] \<Rightarrow> Inl ValueError
      | (found, rest) # others \<Rightarrow>
          if rest \<noteq> [] then Inl ValueError
          else
            (let year = (case map_of found (CHR ''Y'') of
                           Some t \<Rightarrow> int_digits t | None \<Rightarrow> 1900);
                 month = (case map_of found (CHR ''m'') of
                            Some t \<Rightarrow> int_digits t
                          | None \<Rightarrow>
                             (case map_of found (CHR ''B'') of
                                Some t \<Rightarrow> index_of f_month (lower t)
                              | None \<Rightarrow>
                                 (case map_of found (CHR ''b'') of
                                    Some t \<Rightarrow> index_of a_month (lower t)
                                  | None \<Rightarrow> 1)));
                 day = (case map_of found (CHR ''d'') of
                          Some t \<Rightarrow> int_digits (strip t) | None \<Rightarrow> 1)
             in if valid_date year month day then Inr (Date year month day)
                else Inl ValueError))"

text \<open>
  \<^verbatim>\<open>dt.strftime('%Y-%m-%d')\<close>. The year is written by the C library: with \<open>padded\<close> it
  has four digits, as \<^const>\<open>strftime_iso\<close> writes it; without, as the GNU library does
  under Python before 3.13, a year below 1000 has fewer.
\<close>

definition strftime_date :: "bool \<Rightarrow> pydate \<Rightarrow> string" where
  "strftime_date padded dt =
     (if padded then zfill 4 (str_nat (d_year dt)) else str_nat (d_year dt)) @ ''-''
       @ zfill 2 (str_nat (d_month dt)) @ ''-'' @ zfill 2 (str_nat (d_day dt))"

definition date_formats :: "string list" where
  "date_formats = [''%Y-%m-%d'', ''%m/%d/%Y'', ''%d/%m/%Y'', ''%Y/%m/%d'', ''%m-%d-%Y'',
                   ''%d-%m-%Y'', ''%b %d, %Y'', ''%B %d, %Y'']"

text \<open>The loop of \<^verbatim>\<open>_parse_date\<close> over the formats, and the error after it.\<close>

fun try_formats :: "bool \<Rightarrow> string list \<Rightarrow> string \<Rightarrow> py_error + string" where
  "try_formats padded [] date_str = Inl ValueError"
| "try_formats padded (fmt # fmts) date_str =
     (case strptime date_str fmt of
        Inr dt \<Rightarrow> Inr (strftime_date padded dt)
      | Inl e \<Rightarrow> try_formats padded fmts date_str)"

definition parse_date :: "bool \<Rightarrow> string \<Rightarrow> py_error + string" where
  "parse_date padded date_str = try_formats padded date_formats (strip date_str)"

text \<open>
  A date in one of the formats, in the words of the specification: the year with four
  digits, the month and the day with two, the month names with a capital.
\<close>

definition format_field :: "directive \<Rightarrow> pydate \<Rightarrow> string" where
  "format_field d dt =
     (case d of
        Field k \<Rightarrow>
          if k = CHR ''Y'' then zfill 4 (str_nat (d_year dt))
          else if k = CHR ''m'' then zfill 2 (str_nat (d_month dt))
          else if k = CHR ''d'' then zfill 2 (str_nat (d_day dt))
          else if k = CHR ''b'' then month_abbr ! d_month dt
          else if k = CHR ''B'' then month_name ! d_month dt
          else []
      | Whitespace \<Rightarrow> '' ''
      | Literal c \<Rightarrow> [c])"

definition format_as :: "string \<Rightarrow> pydate \<Rightarrow> string" where
  "format_as fmt dt = concat (map (\<lambda>d. format_field d dt) (compile_format fmt))"

subsection \<open>The importer (\<^verbatim>\<open>csv_import.py\<close>)\<close>

text \<open>
  What the reader yields: with \<^verbatim>\<open>skip_header\<close>, the dicts of a \<^verbatim>\<open>csv.DictReader\<close>, in which
  a column that a short row lacks holds \<^verbatim>\<open>None\<close>; without, the lists of a \<^verbatim>\<open>csv.reader\<close>,
  the empty list for an empty line.
\<close>

datatype csv_rows =
  DictRows "(string \<rightharpoonup> string option) list"
| ListRows "string list list"

text \<open>\<^verbatim>\<open>row.get(col, default)\<close>\<close>

definition row_get :: "(string \<rightharpoonup> string option) \<Rightarrow> string \<Rightarrow> string \<Rightarrow> string option" where
  "row_get row col dflt = (case row col of None \<Rightarrow> Some dflt | Some v \<Rightarrow> v)"

text \<open>A method of \<^verbatim>\<open>str\<close> called on \<^verbatim>\<open>None\<close> raises \<^verbatim>\<open>AttributeError\<close>.\<close>

definition on_str :: "(string \<Rightarrow> py_error + 'a) \<Rightarrow> string option \<Rightarrow> py_error + 'a" where
  "on_str f x = (case x of None \<Rightarrow> Inl AttributeError | Some s \<Rightarrow> f s)"

text \<open>The dict that \<^verbatim>\<open>parse_csv\<close> appends for a row.\<close>

record parsed =
  p_date :: string
  p_description :: string
  p_amount :: pyfloat
  p_category :: string
  p_type :: string

text \<open>
  What \<^verbatim>\<open>parse_csv\<close> and \<^verbatim>\<open>import_transactions\<close> print: \<^verbatim>\<open>Skipping row with invalid date:\<close>
  and \<^verbatim>\<open>Skipping row with invalid amount:\<close> with the field as read, and
  \<^verbatim>\<open>Error importing transaction:\<close> with the exception.
\<close>

datatype message =
  InvalidDate "string option"
| InvalidAmount "string option"
| ImportError py_error

text \<open>
  The body of the loop of \<^verbatim>\<open>parse_csv\<close> for the three fields of a row: the row is
  appended, or skipped with a message, or an exception leaves the loop.
\<close>

datatype row_result = Appended parsed | Skipped message | Raised py_error

definition parse_row :: "bool \<Rightarrow> string option \<Rightarrow> string option \<Rightarrow> string option \<Rightarrow> row_result" where
  "parse_row padded date_str description amount_str =
     (case on_str (parse_date padded) date_str of
        Inl e \<Rightarrow> Skipped (InvalidDate date_str)
      | Inr date \<Rightarrow>
         (case on_str parse_amount amount_str of
            Inl e \<Rightarrow> Skipped (InvalidAmount amount_str)
          | Inr amount \<Rightarrow>
             (let trans_type = (if gt_zero amount then ''income'' else ''expense'');
                  amount = py_abs amount
              in case description of
                   None \<Rightarrow> Raised AttributeError
                 | Some desc \<Rightarrow>
                     Appended
                       \<lparr>p_date = date, p_description = desc, p_amount = amount,
                        p_category =
                          get_suggested_category category_keywords desc
                            (if trans_type = ''income'' then amount else py_neg amount),
                        p_type = trans_type\<rparr>)))"

text \<open>The fields of a row of either reader.\<close>

definition dict_row ::
  "bool \<Rightarrow> string \<Rightarrow> string \<Rightarrow> string \<Rightarrow> (string \<rightharpoonup> string option) \<Rightarrow> row_result" where
  "dict_row padded date_col desc_col amount_col row =
     parse_row padded (row_get row date_col []) (row_get row desc_col [])
       (row_get row amount_col ''0'')"

definition list_row :: "bool \<Rightarrow> string list \<Rightarrow> row_result" where
  "list_row padded row =
     (if length row < 3 then Raised IndexError
      else parse_row padded (Some (row ! 0)) (Some (row ! 1)) (Some (row ! 2)))"

text \<open>The loop: what has been printed, and the exception or the list of transactions.\<close>

fun parse_loop ::
  "('r \<Rightarrow> row_result) \<Rightarrow> 'r list \<Rightarrow> message list \<Rightarrow> parsed list
     \<Rightarrow> message list \<times> (py_error + parsed list)" where
  "parse_loop body [] out trans_list = (out, Inr trans_list)"
| "parse_loop body (row # rows) out trans_list =
     (case body row of
        Appended t \<Rightarrow> parse_loop body rows out (trans_list @ [t])
      | Skipped msg \<Rightarrow> parse_loop body rows (out @ [msg]) trans_list
      | Raised e \<Rightarrow> (out, Inl e))"

definition parse_csv ::
  "bool \<Rightarrow> csv_rows \<Rightarrow> string \<Rightarrow> string \<Rightarrow> string
     \<Rightarrow> message list \<times> (py_error + parsed list)" where
  "parse_csv padded reader date_col desc_col amount_col =
     (case reader of
        DictRows rows \<Rightarrow> parse_loop (dict_row padded date_col desc_col amount_col) rows [] []
      | ListRows rows \<Rightarrow> parse_loop (list_row padded) rows [] [])"











subsection \<open>Stores used as examples\<close>

text \<open>
  A store with an income on 15 December 2024, an expense on 31 December 2024 and an
  expense on 1 January 2025.
\<close>

definition december_db :: finance_db where
  "december_db =
     snd (add_transaction ''2025-01-01'' ''Gym'' 60 ''Entertainment'' ''expense''
       (snd (add_transaction ''2024-12-31'' ''Dinner'' 40 ''Food & Dining'' ''expense''
         (snd (add_transaction ''2024-12-15'' ''Salary ABC'' 100 ''Salary'' ''income''
           new_db)))))"

text \<open>A store with one expense on 31 December 9999.\<close>

definition last_month_db :: finance_db where
  "last_month_db =
     snd (add_transaction ''9999-12-31'' ''Party'' 50 ''Entertainment'' ''expense'' new_db)"

text \<open>
  The limit of the income category \<open>Salary\<close> set to 100, as the category menu allows, and
  an expense of 90 filed under \<open>Salary\<close>, as the import files a negative amount whose
  description holds the word.
\<close>

definition salary_db :: finance_db where
  "salary_db =
     (case update_budget_limit ''Salary'' 100 new_db of
        Inl e \<Rightarrow> new_db
      | Inr db \<Rightarrow>
          snd (add_transaction ''2024-05-03'' ''Salary advance repaid'' 90 ''Salary''
                 ''expense'' db))"

text \<open>
  May 2024 with limits of 100 for \<open>Shopping\<close> and \<open>Other Expenses\<close> and no limit for
  \<open>Healthcare\<close>, and expenses of 120, 82 and 500 in these categories.
\<close>

definition alerts_db :: finance_db where
  "alerts_db =
     (case update_budget_limit ''Shopping'' 100 new_db of
        Inl e \<Rightarrow> new_db
      | Inr db1 \<Rightarrow>
         (case update_budget_limit ''Healthcare'' 0 db1 of
            Inl e \<Rightarrow> new_db
          | Inr db2 \<Rightarrow>
              snd (add_transaction ''2024-05-20'' ''Hospital'' 500 ''Healthcare'' ''expense''
                (snd (add_transaction ''2024-05-11'' ''Misc'' 82 ''Other Expenses'' ''expense''
                  (snd (add_transaction ''2024-05-02'' ''Mall'' 120 ''Shopping'' ''expense''
                     db2)))))))"

text \<open>Two categories with the same total in May 2024.\<close>

definition tie_db :: finance_db where
  "tie_db =
     snd (add_transaction ''2024-05-09'' ''Pharmacy'' 50 ''Healthcare'' ''expense''
       (snd (add_transaction ''2024-05-04'' ''Cinema'' 50 ''Entertainment'' ''expense''
          new_db)))"

text \<open>Two categories at the same percentage of their limits in May 2024.\<close>

definition alert_tie_db :: finance_db where
  "alert_tie_db =
     snd (add_transaction ''2024-05-09'' ''Mall'' 300 ''Shopping'' ''expense''
       (snd (add_transaction ''2024-05-04'' ''Groceries'' 500 ''Food & Dining'' ''expense''
          new_db)))"

subsection \<open>Facts about the categoriser\<close>

lemma scan_keywords_iff:
  "scan_keywords kws s \<longleftrightarrow> list_ex (\<lambda>k. sublist k s) kws"
  by (induction kws) auto

lemma scan_table_find:
  "scan_table tbl s =
     (case find (\<lambda>(category, keywords). list_ex (\<lambda>k. sublist k s) keywords) tbl of
        None \<Rightarrow> ''Other Expenses''
      | Some (category, keywords) \<Rightarrow> category)"
  by (induction tbl) (auto simp: scan_keywords_iff)

lemma lower_char_idem: "lower_char (lower_char c) = lower_char c"
proof (cases "65 \<le> (of_char c :: nat) \<and> (of_char c :: nat) \<le> 90")
  case True
  then have "(of_char c :: nat) + 32 < 256" by simp
  then have "of_char (char_of ((of_char c :: nat) + 32)) = (of_char c :: nat) + 32"
    by simp
  with True show ?thesis by (simp add: lower_char_def Let_def)
next
  case False
  then show ?thesis by (auto simp: lower_char_def Let_def)
qed

lemma lower_idem: "lower (lower s) = lower s"
  by (simp add: lower_def lower_char_idem)

lemma default_names_not_other:
  "\<forall>(c, kws) \<in> set category_keywords. \<not> prefix ''Other'' c"
  by (simp add: category_keywords_def)

lemma other_means_no_match:
  assumes "prefix ''Other'' (scan_table category_keywords s)"
  shows "find (\<lambda>(category, keywords). list_ex (\<lambda>k. sublist k s) keywords) category_keywords
         = None"
proof (cases "find (\<lambda>(category, keywords). list_ex (\<lambda>k. sublist k s) keywords)
                category_keywords")
  case None
  then show ?thesis .
next
  case (Some p)
  obtain c kws where p: "p = (c, kws)" by (cases p)
  from Some have "p \<in> set category_keywords"
    by (auto simp: find_Some_iff in_set_conv_nth)
  with default_names_not_other p have "\<not> prefix ''Other'' c" by auto
  moreover from assms Some p have "prefix ''Other'' c" by (simp add: scan_table_find)
  ultimately show ?thesis by simp
qed

lemma other_means_no_keyword:
  assumes "prefix ''Other'' (scan_table category_keywords s)"
    and "(c, kws) \<in> set category_keywords" and "k \<in> set kws"
  shows "\<not> sublist k s"
proof -
  from other_means_no_match [OF assms(1)] assms(2)
  have "\<not> list_ex (\<lambda>k. sublist k s) kws"
    by (auto simp: find_None_iff)
  with assms(3) show ?thesis by (auto simp: list_ex_iff)
qed

subsection \<open>Claims about the categoriser\<close>

text \<open>
  C8. For every description and every rule table, \<open>categorize\<close> lowercases the description
  and returns the first category, in table order, one of whose keywords occurs in the
  lowercased description, and \<open>Other Expenses\<close> when no keyword of any category occurs.
  It is a total function, and it does not depend on the case of the description: the
  lowercased description classifies as the description does. With the default table,
  \<open>STARBUCKS COFFEE\<close> and \<open>starbucks coffee\<close> both classify as \<open>Food & Dining\<close>.
\<close>

theorem categorize_first_match:
  "categorize tbl d = categorize_spec tbl d
   \<and> categorize tbl (lower d) = categorize tbl d
   \<and> categorize category_keywords ''STARBUCKS COFFEE'' = ''Food & Dining''
   \<and> categorize category_keywords ''starbucks coffee'' = ''Food & Dining''"
proof -
  have "categorize tbl d = categorize_spec tbl d"
    by (simp add: categorize_def categorize_spec_def scan_table_find)
  moreover have "categorize tbl (lower d) = categorize tbl d"
    by (simp add: categorize_def lower_idem)
  moreover have "categorize category_keywords ''STARBUCKS COFFEE'' = ''Food & Dining''"
    by code_simp
  moreover have "categorize category_keywords ''starbucks coffee'' = ''Food & Dining''"
    by code_simp
  ultimately show ?thesis by blast
qed

theorem categorize_first_match_witness:
  "categorize category_keywords ''Uber ride to airport'' = ''Transportation''
   \<and> categorize_spec category_keywords ''Uber ride to airport'' = ''Transportation''
   \<and> categorize category_keywords ''Unknown transaction XYZ123'' = ''Other Expenses''
   \<and> categorize_spec category_keywords ''Unknown transaction XYZ123'' = ''Other Expenses''"
proof -
  have a: "categorize category_keywords ''Uber ride to airport'' = ''Transportation''"
    by code_simp
  have b: "categorize category_keywords ''Unknown transaction XYZ123'' = ''Other Expenses''"
    by code_simp
  from a b categorize_first_match [of category_keywords "''Uber ride to airport''"]
    categorize_first_match [of category_keywords "''Unknown transaction XYZ123''"]
  show ?thesis by simp
qed

text \<open>
  C9. With the default rule table, for every description \<open>d\<close> and every amount \<open>a > 0\<close>:
  if \<open>categorize d\<close> starts with \<open>Other\<close>, then \<open>get_suggested_category d a\<close> is
  \<open>Other Income\<close>, and neither word list of the income re-check matches, so its
  \<open>Salary\<close> and \<open>Freelance\<close> branches are not taken.
\<close>

theorem suggested_other_is_other_income:
  assumes "gt_zero a" and "prefix ''Other'' (categorize category_keywords d)"
  shows "get_suggested_category category_keywords d a = ''Other Income''
         \<and> \<not> any_word_in [''salary'', ''payroll'', ''employer''] d
         \<and> \<not> any_word_in [''freelance'', ''consulting'', ''contract''] d"
proof -
  from assms(2) have o: "prefix ''Other'' (scan_table category_keywords (lower d))"
    by (simp add: categorize_def)
  have sal: "(''Salary'',
        [''salary'', ''payroll'', ''wages'', ''paycheck'', ''employer'',
         ''direct deposit'', ''income'']) \<in> set category_keywords"
    by (simp add: category_keywords_def)
  have fre: "(''Freelance'',
        [''freelance'', ''consulting'', ''contract'', ''gig'',
         ''side job'', ''project payment'']) \<in> set category_keywords"
    by (simp add: category_keywords_def)
  have s1: "\<not> sublist ''salary'' (lower d)"
    by (rule other_means_no_keyword [OF o sal]) simp
  have s2: "\<not> sublist ''payroll'' (lower d)"
    by (rule other_means_no_keyword [OF o sal]) simp
  have s3: "\<not> sublist ''employer'' (lower d)"
    by (rule other_means_no_keyword [OF o sal]) simp
  have f1: "\<not> sublist ''freelance'' (lower d)"
    by (rule other_means_no_keyword [OF o fre]) simp
  have f2: "\<not> sublist ''consulting'' (lower d)"
    by (rule other_means_no_keyword [OF o fre]) simp
  have f3: "\<not> sublist ''contract'' (lower d)"
    by (rule other_means_no_keyword [OF o fre]) simp
  have n1: "\<not> any_word_in [''salary'', ''payroll'', ''employer''] d"
    using s1 s2 s3 by (simp add: any_word_in_def)
  have n2: "\<not> any_word_in [''freelance'', ''consulting'', ''contract''] d"
    using f1 f2 f3 by (simp add: any_word_in_def)
  from assms n1 n2 show ?thesis
    by (simp add: get_suggested_category_def Let_def)
qed

theorem suggested_other_is_other_income_witness:
  "gt_zero (Num 500) \<and> prefix ''Other'' (categorize category_keywords ''Birthday gift'')
   \<and> get_suggested_category category_keywords ''Birthday gift'' (Num 500) = ''Other Income''"
proof -
  have g: "gt_zero (Num 500)" by simp
  have c: "categorize category_keywords ''Birthday gift'' = ''Other Expenses''"
    by code_simp
  have p: "prefix ''Other'' (categorize category_keywords ''Birthday gift'')"
    unfolding c by simp
  from g p suggested_other_is_other_income [OF g p] show ?thesis by simp
qed

subsection \<open>Claims about the store\<close>

lemma digit_char_simps:
  "digit_char 0 = CHR ''0''" "digit_char (Suc 0) = CHR ''1''" "digit_char 2 = CHR ''2''"
  "digit_char 3 = CHR ''3''" "digit_char 4 = CHR ''4''" "digit_char 5 = CHR ''5''"
  "digit_char 6 = CHR ''6''" "digit_char 7 = CHR ''7''" "digit_char 8 = CHR ''8''"
  "digit_char 9 = CHR ''9''"
  by (simp_all add: digit_char_def)

lemma delete_missing:
  assumes "\<forall>t \<in> set (transactions db). t_id t \<noteq> i"
    and "- (2 ^ 63) \<le> i" "i < 2 ^ 63"
  shows "delete_transaction i db = Inr db"
proof -
  from assms(1) have "filter (\<lambda>t. t_id t \<noteq> i) (transactions db) = transactions db"
    by (simp add: filter_id_conv)
  with assms(2,3) show ?thesis by (simp add: delete_transaction_def)
qed

lemma update_missing:
  assumes "\<forall>c \<in> set (categories db). c_name c \<noteq> n"
  shows "update_budget_limit n l db = Inr db"
proof -
  from assms
  have "map (\<lambda>c. if c_name c = n then c\<lparr>c_budget_limit := l\<rparr> else c) (categories db)
        = categories db"
    by (intro map_idI) simp
  then show ?thesis by (simp add: update_budget_limit_def)
qed

text \<open>
  C5, as the specification states it, fails: on a new store, which holds no transaction
  and no category named \<open>Travel\<close>, deleting transaction 7 and setting the limit of
  \<open>Travel\<close> both return normally, with the store as it was. No error is raised.
\<close>

theorem missing_target_counterexample:
  "delete_transaction 7 new_db = Inr new_db
   \<and> update_budget_limit ''Travel'' 50 new_db = Inr new_db"
  by (simp add: delete_transaction_def update_budget_limit_def new_db_def
      default_categories_def)

text \<open>
  C5, amended. A missing target raises no error of its own. When no transaction has the
  given id and the id fits a signed integer of 64 bits, \<open>delete_transaction\<close> returns
  normally with the store unchanged; an id outside that range raises \<open>OverflowError\<close>,
  whether a transaction has it or not. When no category has the given name,
  \<open>update_budget_limit\<close> returns normally with the store unchanged. In both operations
  the missing target is ignored without an error.
\<close>

theorem missing_target_ignored:
  "((\<forall>t \<in> set (transactions db). t_id t \<noteq> i) \<and> - (2 ^ 63) \<le> i \<and> i < 2 ^ 63
      \<longrightarrow> delete_transaction i db = Inr db)
   \<and> (i < - (2 ^ 63) \<or> 2 ^ 63 \<le> i \<longrightarrow> delete_transaction i db = Inl OverflowError)
   \<and> ((\<forall>c \<in> set (categories db). c_name c \<noteq> n) \<longrightarrow> update_budget_limit n l db = Inr db)"
proof -
  have "i < - (2 ^ 63) \<or> 2 ^ 63 \<le> i \<longrightarrow> delete_transaction i db = Inl OverflowError"
    by (auto simp: delete_transaction_def)
  then show ?thesis
    using delete_missing [of db i] update_missing [of db n l] by blast
qed

theorem missing_target_ignored_witness:
  "transactions new_db = []
   \<and> list_all (\<lambda>c. c_name c \<noteq> ''Pets'') (categories new_db)
   \<and> delete_transaction 3 new_db = Inr new_db
   \<and> delete_transaction (2 ^ 63) new_db = Inl OverflowError
   \<and> update_budget_limit ''Pets'' 75 new_db = Inr new_db"
proof -
  have e: "transactions new_db = []"
    by (simp add: new_db_def)
  have l: "list_all (\<lambda>c. c_name c \<noteq> ''Pets'') (categories new_db)"
    by (simp add: new_db_def default_categories_def)
  from e have a: "\<forall>t \<in> set (transactions new_db). t_id t \<noteq> 3"
    by simp
  from l have b: "\<forall>c \<in> set (categories new_db). c_name c \<noteq> ''Pets''"
    by (simp add: list_all_iff)
  have r: "- (2 ^ 63) \<le> (3::int)" "(3::int) < 2 ^ 63"
    by simp_all
  from a b r missing_target_ignored [of new_db 3 "''Pets''" 75]
  have d: "delete_transaction 3 new_db = Inr new_db"
    and u: "update_budget_limit ''Pets'' 75 new_db = Inr new_db"
    by blast+
  from missing_target_ignored [of new_db "2 ^ 63" "''Pets''" 75]
  have o: "delete_transaction (2 ^ 63) new_db = Inl OverflowError"
    by simp
  from e l d o u show ?thesis by blast
qed

subsection \<open>Canonical dates compare as text the way they compare as dates\<close>

lemma digit_cases: "(n::nat) < 10 \<Longrightarrow> n \<in> {0, Suc 0, 2, 3, 4, 5, 6, 7, 8, 9}"
  by (simp; arith)

lemma of_char_digit: "n < 10 \<Longrightarrow> (of_char (digit_char n) :: nat) = 48 + n"
  using digit_cases [of n] by (auto simp: digit_char_simps)

lemma digit_char_inj: "a < 10 \<Longrightarrow> b < 10 \<Longrightarrow> digit_char a = digit_char b \<longleftrightarrow> a = b"
proof
  assume "a < 10" "b < 10" "digit_char a = digit_char b"
  then have "(of_char (digit_char a) :: nat) = of_char (digit_char b)" by simp
  with \<open>a < 10\<close> \<open>b < 10\<close> show "a = b" by (simp add: of_char_digit)
qed simp

lemma str_less_digit:
  "a < 10 \<Longrightarrow> b < 10 \<Longrightarrow>
   str_less (digit_char a # xs) (digit_char b # ys) \<longleftrightarrow> a < b \<or> (a = b \<and> str_less xs ys)"
  by (simp add: of_char_digit digit_char_inj)

lemma str_nat_1: "n < 10 \<Longrightarrow> str_nat n = [digit_char n]"
  by (simp add: str_nat.simps)

lemma str_nat_2: "10 \<le> n \<Longrightarrow> n < 100 \<Longrightarrow> str_nat n = [digit_char (n div 10), digit_char (n mod 10)]"
  by (subst str_nat.simps) (simp add: str_nat_1)

lemma str_nat_3: "100 \<le> n \<Longrightarrow> n < 1000 \<Longrightarrow>
  str_nat n = [digit_char (n div 100), digit_char (n div 10 mod 10), digit_char (n mod 10)]"
  by (subst str_nat.simps) (simp add: str_nat_2 div_mult2_eq [symmetric])

lemma str_nat_4: "1000 \<le> n \<Longrightarrow> n < 10000 \<Longrightarrow>
  str_nat n = [digit_char (n div 1000), digit_char (n div 100 mod 10), digit_char (n div 10 mod 10),
               digit_char (n mod 10)]"
  by (subst str_nat.simps) (simp add: str_nat_3 div_mult2_eq [symmetric])

lemma rep_small:
  "replicate (Suc 0) c = [c]" "replicate 2 c = [c, c]" "replicate 3 c = [c, c, c]"
  by (simp_all add: numeral_2_eq_2 numeral_3_eq_3)

lemma zfill2: "n < 100 \<Longrightarrow> zfill 2 (str_nat n) = [digit_char (n div 10), digit_char (n mod 10)]"
proof (cases "n < 10")
  case True
  then show ?thesis by (simp add: zfill_def str_nat_1 digit_char_simps)
next
  case False
  assume "n < 100"
  with False show ?thesis by (simp add: zfill_def str_nat_2)
qed

lemma zfill4: "n < 10000 \<Longrightarrow>
  zfill 4 (str_nat n) = [digit_char (n div 1000), digit_char (n div 100 mod 10),
                         digit_char (n div 10 mod 10), digit_char (n mod 10)]"
proof -
  assume n: "n < 10000"
  consider "n < 10" | "10 \<le> n" "n < 100" | "100 \<le> n" "n < 1000" | "1000 \<le> n" by linarith
  then show ?thesis
  proof cases
    case 1 then show ?thesis by (simp add: zfill_def str_nat_1 digit_char_simps rep_small)
  next
    case 2 then show ?thesis by (simp add: zfill_def str_nat_2 digit_char_simps rep_small)
  next
    case 3 then show ?thesis by (simp add: zfill_def str_nat_3 digit_char_simps rep_small)
  next
    case 4 with n show ?thesis by (simp add: zfill_def str_nat_4)
  qed
qed

lemma eq2: "(m::nat) = n \<longleftrightarrow> m div 10 = n div 10 \<and> m mod 10 = n mod 10"
  by (metis div_mult_mod_eq)

lemma lex2:
  "(m::nat) < n \<longleftrightarrow> m div 10 < n div 10 \<or> (m div 10 = n div 10 \<and> m mod 10 < n mod 10)"
proof -
  have m: "m = 10 * (m div 10) + m mod 10" and n: "n = 10 * (n div 10) + n mod 10" by simp_all
  have "m mod 10 < 10" "n mod 10 < 10" by simp_all
  then show ?thesis using m n by linarith
qed

lemma str_less_zfill2:
  assumes "m < 100" "n < 100"
  shows "str_less (zfill 2 (str_nat m) @ xs) (zfill 2 (str_nat n) @ ys)
         \<longleftrightarrow> m < n \<or> (m = n \<and> str_less xs ys)"
proof -
  have d: "m div 10 < 10" "n div 10 < 10" "m mod 10 < 10" "n mod 10 < 10"
    using assms by simp_all
  have "str_less (zfill 2 (str_nat m) @ xs) (zfill 2 (str_nat n) @ ys) \<longleftrightarrow>
        str_less (digit_char (m div 10) # digit_char (m mod 10) # xs)
                 (digit_char (n div 10) # digit_char (n mod 10) # ys)"
    by (simp only: zfill2 [OF assms(1)] zfill2 [OF assms(2)] append_Cons append_Nil)
  also have "\<dots> \<longleftrightarrow> (m div 10 < n div 10 \<or> (m div 10 = n div 10 \<and>
          (m mod 10 < n mod 10 \<or> (m mod 10 = n mod 10 \<and> str_less xs ys))))"
    by (simp only: str_less_digit [OF d(1) d(2)] str_less_digit [OF d(3) d(4)])
  also have "\<dots> \<longleftrightarrow> m < n \<or> (m = n \<and> str_less xs ys)"
    using lex2 [of m n] eq2 [of m n] by blast
  finally show ?thesis .
qed


lemma zfill2_eq:
  assumes "m < 100" "n < 100"
  shows "zfill 2 (str_nat m) @ xs = zfill 2 (str_nat n) @ ys \<longleftrightarrow> m = n \<and> xs = ys"
proof -
  have d: "m div 10 < 10" "n div 10 < 10" "m mod 10 < 10" "n mod 10 < 10"
    using assms by simp_all
  have "zfill 2 (str_nat m) @ xs = zfill 2 (str_nat n) @ ys \<longleftrightarrow>
        digit_char (m div 10) = digit_char (n div 10)
        \<and> digit_char (m mod 10) = digit_char (n mod 10) \<and> xs = ys"
    by (simp add: zfill2 [OF assms(1)] zfill2 [OF assms(2)])
  also have "\<dots> \<longleftrightarrow> m div 10 = n div 10 \<and> m mod 10 = n mod 10 \<and> xs = ys"
    by (simp only: digit_char_inj [OF d(1) d(2)] digit_char_inj [OF d(3) d(4)])
  also have "\<dots> \<longleftrightarrow> m = n \<and> xs = ys"
    using eq2 [of m n] by blast
  finally show ?thesis .
qed

lemma div_mod_100:
  "(n::nat) div 100 div 10 = n div 1000" "n mod 100 div 10 = n div 10 mod 10"
  "n mod 100 mod 10 = n mod 10"
proof -
  show "n div 100 div 10 = n div 1000" by (simp add: div_mult2_eq [symmetric])
  show "n mod 100 mod 10 = n mod 10" by (simp add: mod_mod_cancel)
  have "n mod (10 * 10) = 10 * (n div 10 mod 10) + n mod 10" by (rule mod_mult2_eq)
  then have "n mod 100 = 10 * (n div 10 mod 10) + n mod 10" by simp
  then show "n mod 100 div 10 = n div 10 mod 10" by simp
qed

lemma zfill4_split:
  assumes "n < 10000"
  shows "zfill 4 (str_nat n) = zfill 2 (str_nat (n div 100)) @ zfill 2 (str_nat (n mod 100))"
proof -
  have a: "n div 100 < 100" "n mod 100 < 100" using assms by simp_all
  show ?thesis
    by (simp only: zfill4 [OF assms] zfill2 [OF a(1)] zfill2 [OF a(2)] div_mod_100
        append_Cons append_Nil)
qed

lemma lex100:
  "(m::nat) < n \<longleftrightarrow> m div 100 < n div 100 \<or> (m div 100 = n div 100 \<and> m mod 100 < n mod 100)"
proof -
  have m: "m = 100 * (m div 100) + m mod 100" and n: "n = 100 * (n div 100) + n mod 100"
    by simp_all
  have "m mod 100 < 100" "n mod 100 < 100" by simp_all
  then show ?thesis using m n by linarith
qed

lemma eq100: "(m::nat) = n \<longleftrightarrow> m div 100 = n div 100 \<and> m mod 100 = n mod 100"
  by (metis div_mult_mod_eq)

lemma str_less_zfill4:
  assumes "m < 10000" "n < 10000"
  shows "str_less (zfill 4 (str_nat m) @ xs) (zfill 4 (str_nat n) @ ys)
         \<longleftrightarrow> m < n \<or> (m = n \<and> str_less xs ys)"
proof -
  have a: "m div 100 < 100" "m mod 100 < 100" "n div 100 < 100" "n mod 100 < 100"
    using assms by simp_all
  have "str_less (zfill 4 (str_nat m) @ xs) (zfill 4 (str_nat n) @ ys) \<longleftrightarrow>
        str_less (zfill 2 (str_nat (m div 100)) @ (zfill 2 (str_nat (m mod 100)) @ xs))
                 (zfill 2 (str_nat (n div 100)) @ (zfill 2 (str_nat (n mod 100)) @ ys))"
    by (simp only: zfill4_split [OF assms(1)] zfill4_split [OF assms(2)] append_assoc)
  also have "\<dots> \<longleftrightarrow> m div 100 < n div 100 \<or> (m div 100 = n div 100 \<and>
       (m mod 100 < n mod 100 \<or> (m mod 100 = n mod 100 \<and> str_less xs ys)))"
    by (simp only: str_less_zfill2 [OF a(1) a(3)] str_less_zfill2 [OF a(2) a(4)])
  also have "\<dots> \<longleftrightarrow> m < n \<or> (m = n \<and> str_less xs ys)"
    using lex100 [of m n] eq100 [of m n] by blast
  finally show ?thesis .
qed

lemma zfill4_eq:
  assumes "m < 10000" "n < 10000"
  shows "zfill 4 (str_nat m) @ xs = zfill 4 (str_nat n) @ ys \<longleftrightarrow> m = n \<and> xs = ys"
proof -
  have a: "m div 100 < 100" "m mod 100 < 100" "n div 100 < 100" "n mod 100 < 100"
    using assms by simp_all
  have "zfill 4 (str_nat m) @ xs = zfill 4 (str_nat n) @ ys \<longleftrightarrow>
        zfill 2 (str_nat (m div 100)) @ (zfill 2 (str_nat (m mod 100)) @ xs)
        = zfill 2 (str_nat (n div 100)) @ (zfill 2 (str_nat (n mod 100)) @ ys)"
    by (simp only: zfill4_split [OF assms(1)] zfill4_split [OF assms(2)] append_assoc)
  also have "\<dots> \<longleftrightarrow> m div 100 = n div 100 \<and> m mod 100 = n mod 100 \<and> xs = ys"
    by (simp only: zfill2_eq [OF a(1) a(3)] zfill2_eq [OF a(2) a(4)])
  also have "\<dots> \<longleftrightarrow> m = n \<and> xs = ys"
    using eq100 [of m n] by blast
  finally show ?thesis .
qed

lemma str_less_same_head: "str_less (c # xs) (c # ys) \<longleftrightarrow> str_less xs ys"
  by simp

lemma str_less_strftime_iso:
  assumes "fits_iso a" "fits_iso b"
  shows "str_less (strftime_iso a) (strftime_iso b) \<longleftrightarrow> date_less a b"
proof -
  from assms have r: "d_year a < 10000" "d_year b < 10000" "d_month a < 100" "d_month b < 100"
    "d_day a < 100" "d_day b < 100"
    by (simp_all add: fits_iso_def)
  have e: "\<And>n. zfill 2 (str_nat n) = zfill 2 (str_nat n) @ []" by simp
  have "str_less (strftime_iso a) (strftime_iso b) \<longleftrightarrow>
    str_less (zfill 4 (str_nat (d_year a)) @ (CHR ''-'' # (zfill 2 (str_nat (d_month a)) @
                (CHR ''-'' # (zfill 2 (str_nat (d_day a)) @ [])))))
             (zfill 4 (str_nat (d_year b)) @ (CHR ''-'' # (zfill 2 (str_nat (d_month b)) @
                (CHR ''-'' # (zfill 2 (str_nat (d_day b)) @ [])))))"
    by (simp add: strftime_iso_def)
  also have "\<dots> \<longleftrightarrow> date_less a b"
    unfolding str_less_zfill4 [OF r(1) r(2)] str_less_same_head
      str_less_zfill2 [OF r(3) r(4)] str_less_zfill2 [OF r(5) r(6)]
    by (simp add: date_less_def)
  finally show ?thesis .
qed

lemma strftime_iso_inj:
  assumes "fits_iso a" "fits_iso b"
  shows "strftime_iso a = strftime_iso b \<longleftrightarrow> a = b"
proof -
  from assms have r: "d_year a < 10000" "d_year b < 10000" "d_month a < 100" "d_month b < 100"
    "d_day a < 100" "d_day b < 100"
    by (simp_all add: fits_iso_def)
  have "strftime_iso a = strftime_iso b \<longleftrightarrow>
    zfill 4 (str_nat (d_year a)) @ (CHR ''-'' # (zfill 2 (str_nat (d_month a)) @
                (CHR ''-'' # (zfill 2 (str_nat (d_day a)) @ []))))
    = zfill 4 (str_nat (d_year b)) @ (CHR ''-'' # (zfill 2 (str_nat (d_month b)) @
                (CHR ''-'' # (zfill 2 (str_nat (d_day b)) @ []))))"
    by (simp add: strftime_iso_def)
  also have "\<dots> \<longleftrightarrow> d_year a = d_year b \<and> d_month a = d_month b \<and> d_day a = d_day b"
    unfolding zfill4_eq [OF r(1) r(2)] list.inject zfill2_eq [OF r(3) r(4)]
      zfill2_eq [OF r(5) r(6)]
    by simp
  also have "\<dots> \<longleftrightarrow> a = b"
    by (auto simp: pydate.expand)
  finally show ?thesis .
qed

subsection \<open>The month bounds and the sums of the monthly summary\<close>

lemma zfill_same: "length s = w \<Longrightarrow> zfill w s = s"
  by (simp add: zfill_def)

lemma str_int_year:
  assumes "1000 \<le> y" "y \<le> 9999"
  shows "str_int y = zfill 4 (str_nat (nat y))"
proof -
  from assms have n: "1000 \<le> nat y" "nat y < 10000" by simp_all
  have "length (str_nat (nat y)) = 4" by (simp add: str_nat_4 [OF n])
  then have "zfill 4 (str_nat (nat y)) = str_nat (nat y)" by (rule zfill_same)
  with assms show ?thesis by (simp add: str_int_def)
qed

lemma fmt_02d_zfill:
  assumes "0 \<le> m" "m < 100"
  shows "fmt_02d m = zfill 2 (str_nat (nat m))"
proof (cases "m < 10")
  case True
  with assms have "nat m < 10" by simp
  then have "zfill 2 (str_nat (nat m)) = CHR ''0'' # str_nat (nat m)"
    by (simp add: zfill_def str_nat_1 rep_small)
  with True assms show ?thesis by (simp add: fmt_02d_def str_int_def)
next
  case False
  with assms have n: "10 \<le> nat m" "nat m < 100" by simp_all
  have "length (str_nat (nat m)) = 2" by (simp add: str_nat_2 [OF n])
  then have "zfill 2 (str_nat (nat m)) = str_nat (nat m)" by (rule zfill_same)
  with False assms show ?thesis by (simp add: fmt_02d_def str_int_def)
qed

lemma zfill2_one: "zfill 2 (str_nat 1) = ''01''" "zfill 2 (str_nat (Suc 0)) = ''01''"
  by (simp_all add: zfill2 digit_char_simps)

lemma month_start_iso:
  assumes "1000 \<le> year" "year \<le> 9999" "0 \<le> month" "month < 100"
  shows "month_start year month = strftime_iso (Date (nat year) (nat month) 1)"
  by (simp add: month_start_def strftime_iso_def str_int_year [OF assms(1,2)]
      fmt_02d_zfill [OF assms(3,4)] zfill2_one)

lemma month_end_iso:
  assumes "1000 \<le> year" "year \<le> 9999" "1 \<le> month" "month \<le> 12"
    and "\<not> (year = 9999 \<and> month = 12)"
  shows "month_end year month =
         strftime_iso (if month = 12 then Date (nat year + 1) 1 1
                       else Date (nat year) (nat month + 1) 1)"
proof (cases "month = 12")
  case True
  with assms have y: "1000 \<le> year + 1" "year + 1 \<le> 9999" by simp_all
  have "nat (year + 1) = nat year + 1" using assms(1) by simp
  with True show ?thesis
    by (simp add: month_end_def strftime_iso_def str_int_year [OF y] zfill2_one)
next
  case False
  with assms have m: "0 \<le> month + 1" "month + 1 < 100" by simp_all
  have "nat (month + 1) = nat month + 1" using assms(3) by simp
  with False show ?thesis
    by (simp add: month_end_def strftime_iso_def str_int_year [OF assms(1,2)]
        fmt_02d_zfill [OF m] zfill2_one)
qed

lemma in_month_iff:
  assumes "1000 \<le> year" "year \<le> 9999" "1 \<le> month" "month \<le> 12"
    and "\<not> (year = 9999 \<and> month = 12)"
    and "fits_iso dt" "1 \<le> d_month dt" "d_month dt \<le> 12" "1 \<le> d_day dt"
  shows "in_half_open (month_start year month) (month_end year month) (strftime_iso dt)
         \<longleftrightarrow> int (d_year dt) = year \<and> int (d_month dt) = month"
proof -
  let ?s = "Date (nat year) (nat month) 1"
  let ?e = "if month = 12 then Date (nat year + 1) 1 1 else Date (nat year) (nat month + 1) 1"
  have fs: "fits_iso ?s" using assms(1-4) by (simp add: fits_iso_def; linarith)
  have fe: "fits_iso ?e" using assms(1-5) by (simp add: fits_iso_def; linarith)
  have ms: "month_start year month = strftime_iso ?s"
    using assms(1-4) by (intro month_start_iso) simp_all
  have me: "month_end year month = strftime_iso ?e"
    by (rule month_end_iso [OF assms(1-5)])
  have "in_half_open (month_start year month) (month_end year month) (strftime_iso dt)
        \<longleftrightarrow> (?s = dt \<or> date_less ?s dt) \<and> date_less dt ?e"
    unfolding in_half_open_def str_le_def ms me
    by (simp only: strftime_iso_inj [OF fs assms(6)] str_less_strftime_iso [OF fs assms(6)]
        str_less_strftime_iso [OF assms(6) fe])
  also have "\<dots> \<longleftrightarrow> int (d_year dt) = year \<and> int (d_month dt) = month"
    using assms by (cases dt) (auto simp: date_less_def)
  finally show ?thesis .
qed

lemma map_of_keyed:
  "map_of (map (\<lambda>k. (k, f k)) ks) k = (if k \<in> set ks then Some (f k) else None)"
  by (induction ks) auto

lemma dict_get_group_sum:
  "dict_get (group_sum key val rows) k 0 = sum_list (map val (filter (\<lambda>r. key r = k) rows))"
proof (cases "k \<in> set (map key rows)")
  case True
  then show ?thesis by (simp add: dict_get_def group_sum_def map_of_keyed)
next
  case False
  then have "filter (\<lambda>r. key r = k) rows = []"
    by (auto simp: filter_empty_conv)
  with False show ?thesis by (simp add: dict_get_def group_sum_def map_of_keyed)
qed

subsection \<open>Claims about the monthly summary\<close>

lemmas eval_store =
  add_transaction_def new_db_def default_categories_def Let_def
  in_half_open_def in_between_def month_start_def month_end_def str_int_def str_nat.simps
  digit_char_simps fmt_02d_def str_le_def

text \<open>
  C2, as the specification states it, fails for December 9999: the upper bound is the
  text \<open>10000-01-01\<close>, which compares below every date of that month, so an expense on
  the last day of the month, 31 December 9999, is left out of the summary.
\<close>

theorem monthly_summary_counterexample:
  "strftime_iso (Date 9999 12 31) = ''9999-12-31''
   \<and> transactions last_month_db =
       [\<lparr>t_id = 1, t_date = ''9999-12-31'', t_description = ''Party'', t_amount = 50,
         t_category = ''Entertainment'', t_type = ''expense''\<rparr>]
   \<and> month_end 9999 12 = ''10000-01-01''
   \<and> get_monthly_summary last_month_db 9999 12 =
       \<lparr>s_income = 0, s_expenses = 0, s_balance = 0, s_month = ''9999-12''\<rparr>"
proof -
  have "strftime_iso (Date 9999 12 31) = ''9999-12-31''"
    by (simp add: strftime_iso_def zfill_def str_nat.simps digit_char_simps)
  moreover have "transactions last_month_db =
       [\<lparr>t_id = 1, t_date = ''9999-12-31'', t_description = ''Party'', t_amount = 50,
         t_category = ''Entertainment'', t_type = ''expense''\<rparr>]"
    by (simp add: last_month_db_def eval_store)
  moreover have "month_end 9999 12 = ''10000-01-01''"
    by (simp add: eval_store)
  moreover have "get_monthly_summary last_month_db 9999 12 =
       \<lparr>s_income = 0, s_expenses = 0, s_balance = 0, s_month = ''9999-12''\<rparr>"
    by (simp add: get_monthly_summary_def last_month_db_def group_sum_def dict_get_def
        eval_store)
  ultimately show ?thesis by blast
qed

text \<open>
  C2, amended. For every year from 1000 to 9999 and every month from 1 to 12, December
  9999 excepted, \<open>get_monthly_summary\<close> sums the amounts of the transactions whose date
  lies in the half-open interval from the first day of the month to the first day of the
  next month, the next month of December being January of the next year. A transaction
  with a canonical date is in the interval exactly when its year and month are the given
  ones, so the last day of the month is in and the first day of the next month is out.
  Income and expenses are the sums by type, 0 when there is no transaction of the type,
  and the balance is their difference.
\<close>

theorem monthly_summary_half_open:
  assumes "1000 \<le> year" "year \<le> 9999" "1 \<le> month" "month \<le> 12"
    and "\<not> (year = 9999 \<and> month = 12)"
  shows
    "s_income (get_monthly_summary db year month) =
       sum_list (map t_amount (filter (\<lambda>t. t_type t = ''income''
          \<and> in_half_open (month_start year month) (month_end year month) (t_date t))
          (transactions db)))
     \<and> s_expenses (get_monthly_summary db year month) =
       sum_list (map t_amount (filter (\<lambda>t. t_type t = ''expense''
          \<and> in_half_open (month_start year month) (month_end year month) (t_date t))
          (transactions db)))
     \<and> s_balance (get_monthly_summary db year month) =
       s_income (get_monthly_summary db year month)
       - s_expenses (get_monthly_summary db year month)
     \<and> (\<forall>dt. fits_iso dt \<and> 1 \<le> d_month dt \<and> d_month dt \<le> 12 \<and> 1 \<le> d_day dt \<longrightarrow>
          (in_half_open (month_start year month) (month_end year month) (strftime_iso dt)
           \<longleftrightarrow> int (d_year dt) = year \<and> int (d_month dt) = month))"
proof -
  have "s_income (get_monthly_summary db year month) =
       sum_list (map t_amount (filter (\<lambda>t. t_type t = ''income''
          \<and> in_half_open (month_start year month) (month_end year month) (t_date t))
          (transactions db)))"
    by (simp add: get_monthly_summary_def Let_def dict_get_group_sum conj_commute)
  moreover have "s_expenses (get_monthly_summary db year month) =
       sum_list (map t_amount (filter (\<lambda>t. t_type t = ''expense''
          \<and> in_half_open (month_start year month) (month_end year month) (t_date t))
          (transactions db)))"
    by (simp add: get_monthly_summary_def Let_def dict_get_group_sum conj_commute)
  moreover have "s_balance (get_monthly_summary db year month) =
       s_income (get_monthly_summary db year month)
       - s_expenses (get_monthly_summary db year month)"
    by (simp add: get_monthly_summary_def Let_def)
  moreover have "\<forall>dt. fits_iso dt \<and> 1 \<le> d_month dt \<and> d_month dt \<le> 12 \<and> 1 \<le> d_day dt \<longrightarrow>
          (in_half_open (month_start year month) (month_end year month) (strftime_iso dt)
           \<longleftrightarrow> int (d_year dt) = year \<and> int (d_month dt) = month)"
    using in_month_iff [OF assms] by blast
  ultimately show ?thesis by blast
qed

lemma december_txns:
  "transactions december_db =
     [\<lparr>t_id = 1, t_date = ''2024-12-15'', t_description = ''Salary ABC'', t_amount = 100,
       t_category = ''Salary'', t_type = ''income''\<rparr>,
      \<lparr>t_id = 2, t_date = ''2024-12-31'', t_description = ''Dinner'', t_amount = 40,
       t_category = ''Food & Dining'', t_type = ''expense''\<rparr>,
      \<lparr>t_id = 3, t_date = ''2025-01-01'', t_description = ''Gym'', t_amount = 60,
       t_category = ''Entertainment'', t_type = ''expense''\<rparr>]"
  by (simp add: december_db_def add_transaction_def new_db_def Let_def)

lemma december_bounds:
  "month_start 2024 12 = ''2024-12-01''" "month_end 2024 12 = ''2025-01-01''"
  by (simp_all add: month_start_def month_end_def str_int_def fmt_02d_def str_nat.simps
      digit_char_simps)

lemma december_income_rows:
  "filter (\<lambda>t. t_type t = ''income'' \<and> in_half_open ''2024-12-01'' ''2025-01-01'' (t_date t))
     (transactions december_db) =
     [\<lparr>t_id = 1, t_date = ''2024-12-15'', t_description = ''Salary ABC'', t_amount = 100,
       t_category = ''Salary'', t_type = ''income''\<rparr>]"
  by (simp add: december_txns in_half_open_def str_le_def)

lemma december_expense_rows:
  "filter (\<lambda>t. t_type t = ''expense'' \<and> in_half_open ''2024-12-01'' ''2025-01-01'' (t_date t))
     (transactions december_db) =
     [\<lparr>t_id = 2, t_date = ''2024-12-31'', t_description = ''Dinner'', t_amount = 40,
       t_category = ''Food & Dining'', t_type = ''expense''\<rparr>]"
  by (simp add: december_txns in_half_open_def str_le_def)

theorem monthly_summary_half_open_witness:
  "s_income (get_monthly_summary december_db 2024 12) = 100
   \<and> s_expenses (get_monthly_summary december_db 2024 12) = 40
   \<and> s_balance (get_monthly_summary december_db 2024 12) = 60
   \<and> in_half_open (month_start 2024 12) (month_end 2024 12) (strftime_iso (Date 2024 12 31))
   \<and> \<not> in_half_open (month_start 2024 12) (month_end 2024 12) (strftime_iso (Date 2025 1 1))"
proof -
  have h: "(1000::int) \<le> 2024" "(2024::int) \<le> 9999" "(1::int) \<le> 12" "(12::int) \<le> 12"
    "\<not> ((2024::int) = 9999 \<and> (12::int) = 12)"
    by simp_all
  note t = monthly_summary_half_open [OF h, of december_db]
  have i: "s_income (get_monthly_summary december_db 2024 12) = 100"
    using t by (simp only: december_bounds december_income_rows) simp
  have e: "s_expenses (get_monthly_summary december_db 2024 12) = 40"
    using t by (simp only: december_bounds december_expense_rows) simp
  have b: "s_balance (get_monthly_summary december_db 2024 12) = 60"
    using t i e by simp
  have q: "\<forall>dt. fits_iso dt \<and> 1 \<le> d_month dt \<and> d_month dt \<le> 12 \<and> 1 \<le> d_day dt \<longrightarrow>
          (in_half_open (month_start 2024 12) (month_end 2024 12) (strftime_iso dt)
           \<longleftrightarrow> int (d_year dt) = 2024 \<and> int (d_month dt) = 12)"
    using t by blast
  have a: "in_half_open (month_start 2024 12) (month_end 2024 12)
             (strftime_iso (Date 2024 12 31))"
    using q [rule_format, of "Date 2024 12 31"] by (simp add: fits_iso_def)
  have c: "\<not> in_half_open (month_start 2024 12) (month_end 2024 12)
             (strftime_iso (Date 2025 1 1))"
    using q [rule_format, of "Date 2025 1 1"] by (simp add: fits_iso_def)
  from i e b a c show ?thesis by blast
qed

subsection \<open>The join and the groups of the budget alerts\<close>

lemma in_alert_join:
  "(t, c) \<in> set (alert_join db year month) \<longleftrightarrow>
     t \<in> set (transactions db) \<and> c \<in> set (categories db) \<and> t_category t = c_name c
     \<and> t_type t = ''expense''
     \<and> in_half_open (month_start year month) (month_end year month) (t_date t)
     \<and> 0 < c_budget_limit c"
  by (auto simp: alert_join_def)

lemma unique_by_name:
  assumes "distinct (map c_name cs)" "c \<in> set cs"
  shows "filter (\<lambda>c'. c_name c = c_name c') cs = [c]"
  using assms
proof (induction cs)
  case Nil
  then show ?case by simp
next
  case (Cons x xs)
  show ?case
  proof (cases "x = c")
    case True
    with Cons.prems have "\<forall>c' \<in> set xs. c_name c \<noteq> c_name c'" by auto
    then have "filter (\<lambda>c'. c_name c = c_name c') xs = []" by (simp add: filter_empty_conv)
    with True show ?thesis by simp
  next
    case False
    with Cons.prems have m: "c \<in> set xs" by simp
    then have "c_name c \<in> c_name ` set xs" by simp
    with Cons.prems have "c_name c \<noteq> c_name x" by auto
    with Cons m show ?thesis by simp
  qed
qed

lemma no_row_by_name:
  assumes "\<forall>c' \<in> set cs. n \<noteq> c_name c'"
  shows "filter (\<lambda>c'. n = c_name c') cs = []"
  using assms by (simp add: filter_empty_conv)

lemma group_rows:
  assumes d: "distinct (map c_name cs)" and c: "c \<in> set cs" and l: "0 < c_budget_limit c"
  shows "map fst (filter (\<lambda>(t, c'). (t_category t, c_budget_limit c') = (c_name c, c_budget_limit c))
           (filter (\<lambda>(t, c'). t_type t = ''expense'' \<and> P (t_date t) \<and> 0 < c_budget_limit c')
             (concat (map (\<lambda>t. map (\<lambda>c'. (t, c')) (filter (\<lambda>c'. t_category t = c_name c') cs)) ts))))
         = filter (\<lambda>t. t_category t = c_name c \<and> t_type t = ''expense'' \<and> P (t_date t)) ts"
proof (induction ts)
  case Nil
  then show ?case by simp
next
  case (Cons t ts)
  show ?case
  proof (cases "t_category t = c_name c")
    case True
    then have "filter (\<lambda>c'. t_category t = c_name c') cs = [c]"
      using unique_by_name [OF d c] by simp
    with True l Cons show ?thesis by simp
  next
    case False
    have "filter (\<lambda>(t', c'). (t_category t', c_budget_limit c') = (c_name c, c_budget_limit c))
           (filter (\<lambda>(t', c'). t_type t' = ''expense'' \<and> P (t_date t') \<and> 0 < c_budget_limit c')
             (map (\<lambda>c'. (t, c')) (filter (\<lambda>c'. t_category t = c_name c') cs))) = []"
      using False by (auto simp: filter_empty_conv)
    with False Cons show ?thesis by simp
  qed
qed

lemma group_spent:
  assumes "distinct (map c_name (categories db))" "c \<in> set (categories db)"
    "0 < c_budget_limit c"
  shows "sum_list (map (\<lambda>(t, c'). t_amount t)
           (filter (\<lambda>r. (case r of (t, c') \<Rightarrow> (t_category t, c_budget_limit c'))
                        = (c_name c, c_budget_limit c))
              (alert_join db year month)))
         = month_spent db year month (c_name c)"
    (is "sum_list (map ?f ?L) = _")
proof -
  have a: "map fst ?L =
     filter (\<lambda>t. t_category t = c_name c \<and> t_type t = ''expense''
        \<and> in_half_open (month_start year month) (month_end year month) (t_date t))
       (transactions db)"
    using group_rows [OF assms,
        of "in_half_open (month_start year month) (month_end year month)" "transactions db"]
    by (simp add: alert_join_def case_prod_unfold)
  have "sum_list (map ?f ?L) = sum_list (map t_amount (map fst ?L))"
    by (simp add: case_prod_unfold comp_def)
  also have "\<dots> = month_spent db year month (c_name c)"
    unfolding a by (simp add: month_spent_def)
  finally show ?thesis .
qed

lemma spent_positive_has_row:
  assumes "0 < month_spent db year month n"
  shows "\<exists>t \<in> set (transactions db). t_category t = n \<and> t_type t = ''expense''
           \<and> in_half_open (month_start year month) (month_end year month) (t_date t)"
proof (rule ccontr)
  assume "\<not> ?thesis"
  then have "filter (\<lambda>t. t_category t = n \<and> t_type t = ''expense''
                  \<and> in_half_open (month_start year month) (month_end year month) (t_date t))
          (transactions db) = []"
    by (auto simp: filter_empty_conv)
  then have "month_spent db year month n = 0" by (simp add: month_spent_def)
  with assms show False by simp
qed

lemma set_group_sum:
  "set (group_sum key val rows) =
     (\<lambda>k. (k, sum_list (map val (filter (\<lambda>r. key r = k) rows)))) ` key ` set rows"
  by (simp add: group_sum_def image_image)

lemma in_alert_rows:
  assumes d: "distinct (map c_name (categories db))"
  shows "a \<in> set (alert_rows db year month) \<longleftrightarrow>
     (\<exists>c \<in> set (categories db). 0 < c_budget_limit c
        \<and> c_budget_limit c * (8 / 10) \<le> month_spent db year month (c_name c)
        \<and> a = \<lparr>a_category = c_name c, a_spent = month_spent db year month (c_name c),
               a_limit = c_budget_limit c,
               a_percentage = month_spent db year month (c_name c) / c_budget_limit c * 100\<rparr>)"
    (is "?lhs \<longleftrightarrow> ?rhs")
proof
  assume ?lhs
  then obtain t c where tc: "(t, c) \<in> set (alert_join db year month)"
    and h: "c_budget_limit c * (8 / 10) \<le>
            sum_list (map (\<lambda>(t, c'). t_amount t)
              (filter (\<lambda>r. (case r of (t, c') \<Rightarrow> (t_category t, c_budget_limit c'))
                        = (t_category t, c_budget_limit c))
                 (alert_join db year month)))"
    and a: "a = \<lparr>a_category = t_category t,
                a_spent = sum_list (map (\<lambda>(t, c'). t_amount t)
              (filter (\<lambda>r. (case r of (t, c') \<Rightarrow> (t_category t, c_budget_limit c'))
                        = (t_category t, c_budget_limit c))
                 (alert_join db year month))),
                a_limit = c_budget_limit c,
                a_percentage = sum_list (map (\<lambda>(t, c'). t_amount t)
              (filter (\<lambda>r. (case r of (t, c') \<Rightarrow> (t_category t, c_budget_limit c'))
                        = (t_category t, c_budget_limit c))
                 (alert_join db year month))) / c_budget_limit c * 100\<rparr>"
    by (auto simp: alert_rows_def set_group_sum)
  from tc have c: "c \<in> set (categories db)" "0 < c_budget_limit c" "t_category t = c_name c"
    by (simp_all add: in_alert_join)
  from h a show ?rhs
    unfolding c(3) group_spent [OF d c(1,2)] using c(1,2) by blast
next
  assume ?rhs
  then obtain c where c: "c \<in> set (categories db)" "0 < c_budget_limit c"
    and h: "c_budget_limit c * (8 / 10) \<le> month_spent db year month (c_name c)"
    and a: "a = \<lparr>a_category = c_name c, a_spent = month_spent db year month (c_name c),
               a_limit = c_budget_limit c,
               a_percentage = month_spent db year month (c_name c) / c_budget_limit c * 100\<rparr>"
    by blast
  from c(2) have "0 < c_budget_limit c * (8 / 10)" by simp
  from this h have "0 < month_spent db year month (c_name c)" by (rule less_le_trans)
  from spent_positive_has_row [OF this] obtain t where
    t: "t \<in> set (transactions db)" "t_category t = c_name c" "t_type t = ''expense''"
      "in_half_open (month_start year month) (month_end year month) (t_date t)"
    by blast
  with c have tc: "(t, c) \<in> set (alert_join db year month)"
    by (simp add: in_alert_join)
  have k: "((c_name c, c_budget_limit c), month_spent db year month (c_name c))
           \<in> set (group_sum (\<lambda>(t, c). (t_category t, c_budget_limit c)) (\<lambda>(t, c). t_amount t)
                    (alert_join db year month))"
    unfolding set_group_sum group_spent [OF d c, symmetric]
    using tc t(2) by (force simp: image_iff)
  show ?lhs
    unfolding alert_rows_def a using k h by (force simp: image_iff)
qed

subsection \<open>The order of a query result\<close>

lemma order_by_desc_set: "order_by_desc key rows out \<Longrightarrow> set out = set rows"
  by (auto simp: order_by_desc_def dest: mset_eq_setD)

lemma order_by_desc_sorted:
  "order_by_desc key rows out \<Longrightarrow> sorted_wrt (\<lambda>a b. key b \<le> key a) out"
  by (simp add: order_by_desc_def)

lemma order_by_desc_exists: "order_by_desc key rows (rev (sort_key key rows))"
proof -
  have "sorted (map key (sort_key key rows))" by simp
  then have "sorted_wrt (\<lambda>a b. key a \<le> key b) (sort_key key rows)"
    by (simp only: sorted_map)
  then have "sorted_wrt (\<lambda>a b. key b \<le> key a) (rev (sort_key key rows))"
    by (simp add: sorted_wrt_rev)
  then show ?thesis by (simp add: order_by_desc_def)
qed

lemma desc_sorted_unique:
  fixes xs ys :: "rat list"
  assumes "sorted_wrt (\<lambda>a b. b \<le> a) xs" "sorted_wrt (\<lambda>a b. b \<le> a) ys"
    "distinct xs" "mset xs = mset ys"
  shows "xs = ys"
proof -
  from assms(4) have s: "set xs = set ys" by (rule mset_eq_setD)
  from assms(3,4) have dy: "distinct ys" by (metis mset_eq_imp_distinct_iff)
  have "sorted (rev xs)" "sorted (rev ys)"
    using assms(1,2) by (simp_all add: sorted_wrt_rev)
  then have "rev xs = rev ys"
    using assms(3) dy s by (intro sorted_distinct_set_unique) simp_all
  then show ?thesis by simp
qed

lemma order_by_desc_unique:
  assumes d: "distinct (map key rows)"
    and a: "order_by_desc key rows out" and b: "order_by_desc key rows out'"
  shows "out = out'"
proof -
  from a b have m: "mset out = mset rows" "mset out' = mset rows"
    by (simp_all add: order_by_desc_def)
  have so: "set out = set rows" "set out' = set rows"
    using a b by (simp_all add: order_by_desc_set)
  from d have inj: "inj_on key (set rows)" by (simp add: distinct_map)
  have mk: "mset (map key out) = mset (map key rows)" "mset (map key out') = mset (map key rows)"
    using m by (metis mset_map)+
  from d mk(1) have dk: "distinct (map key out)" by (metis mset_eq_imp_distinct_iff)
  have "sorted_wrt (\<lambda>a b. b \<le> a) (map key out)" "sorted_wrt (\<lambda>a b. b \<le> a) (map key out')"
    using a b by (simp_all add: order_by_desc_def sorted_wrt_map)
  then have "map key out = map key out'"
    using dk mk by (intro desc_sorted_unique) simp_all
  moreover have "inj_on key (set out \<union> set out')" using inj so by simp
  ultimately show ?thesis by (simp add: inj_on_map_eq_map)
qed

lemma same_name_same_row:
  assumes "distinct (map c_name cs)" "c \<in> set cs" "c' \<in> set cs" "c_name c = c_name c'"
  shows "c = c'"
proof -
  from assms(1) have "inj_on c_name (set cs)" by (simp add: distinct_map)
  with assms(2-4) show ?thesis by (auto dest: inj_onD)
qed

subsection \<open>Claims about the budget alerts and the result order\<close>

lemma may_bounds:
  "month_start 2024 5 = ''2024-05-01''" "month_end 2024 5 = ''2024-06-01''"
  by (simp_all add: month_start_def month_end_def str_int_def fmt_02d_def str_nat.simps
      digit_char_simps)

lemma alerts_db_tables:
  "transactions alerts_db =
     [\<lparr>t_id = 1, t_date = ''2024-05-02'', t_description = ''Mall'', t_amount = 120,
       t_category = ''Shopping'', t_type = ''expense''\<rparr>,
      \<lparr>t_id = 2, t_date = ''2024-05-11'', t_description = ''Misc'', t_amount = 82,
       t_category = ''Other Expenses'', t_type = ''expense''\<rparr>,
      \<lparr>t_id = 3, t_date = ''2024-05-20'', t_description = ''Hospital'', t_amount = 500,
       t_category = ''Healthcare'', t_type = ''expense''\<rparr>]"
  "categories alerts_db =
    [\<lparr>c_name = ''Food & Dining'', c_budget_limit = 500, c_type = ''expense''\<rparr>,
     \<lparr>c_name = ''Transportation'', c_budget_limit = 200, c_type = ''expense''\<rparr>,
     \<lparr>c_name = ''Shopping'', c_budget_limit = 100, c_type = ''expense''\<rparr>,
     \<lparr>c_name = ''Bills & Utilities'', c_budget_limit = 400, c_type = ''expense''\<rparr>,
     \<lparr>c_name = ''Entertainment'', c_budget_limit = 150, c_type = ''expense''\<rparr>,
     \<lparr>c_name = ''Healthcare'', c_budget_limit = 0, c_type = ''expense''\<rparr>,
     \<lparr>c_name = ''Other Expenses'', c_budget_limit = 100, c_type = ''expense''\<rparr>,
     \<lparr>c_name = ''Salary'', c_budget_limit = 0, c_type = ''income''\<rparr>,
     \<lparr>c_name = ''Freelance'', c_budget_limit = 0, c_type = ''income''\<rparr>,
     \<lparr>c_name = ''Other Income'', c_budget_limit = 0, c_type = ''income''\<rparr>]"
  by (simp_all add: alerts_db_def update_budget_limit_def add_transaction_def new_db_def
      default_categories_def Let_def)

lemma alerts_db_join:
  "alert_join alerts_db 2024 5 =
     [(\<lparr>t_id = 1, t_date = ''2024-05-02'', t_description = ''Mall'', t_amount = 120,
        t_category = ''Shopping'', t_type = ''expense''\<rparr>,
       \<lparr>c_name = ''Shopping'', c_budget_limit = 100, c_type = ''expense''\<rparr>),
      (\<lparr>t_id = 2, t_date = ''2024-05-11'', t_description = ''Misc'', t_amount = 82,
        t_category = ''Other Expenses'', t_type = ''expense''\<rparr>,
       \<lparr>c_name = ''Other Expenses'', c_budget_limit = 100, c_type = ''expense''\<rparr>)]"
  by (simp add: alert_join_def alerts_db_tables may_bounds in_half_open_def str_le_def)

lemma alerts_db_rows:
  "alert_rows alerts_db 2024 5 =
     [\<lparr>a_category = ''Shopping'', a_spent = 120, a_limit = 100, a_percentage = 120\<rparr>,
      \<lparr>a_category = ''Other Expenses'', a_spent = 82, a_limit = 100, a_percentage = 82\<rparr>]"
  by (simp add: alert_rows_def alerts_db_join group_sum_def)


lemma salary_db_tables:
  "transactions salary_db =
     [\<lparr>t_id = 1, t_date = ''2024-05-03'', t_description = ''Salary advance repaid'',
       t_amount = 90, t_category = ''Salary'', t_type = ''expense''\<rparr>]"
  "categories salary_db =
    [\<lparr>c_name = ''Food & Dining'', c_budget_limit = 500, c_type = ''expense''\<rparr>,
     \<lparr>c_name = ''Transportation'', c_budget_limit = 200, c_type = ''expense''\<rparr>,
     \<lparr>c_name = ''Shopping'', c_budget_limit = 300, c_type = ''expense''\<rparr>,
     \<lparr>c_name = ''Bills & Utilities'', c_budget_limit = 400, c_type = ''expense''\<rparr>,
     \<lparr>c_name = ''Entertainment'', c_budget_limit = 150, c_type = ''expense''\<rparr>,
     \<lparr>c_name = ''Healthcare'', c_budget_limit = 200, c_type = ''expense''\<rparr>,
     \<lparr>c_name = ''Other Expenses'', c_budget_limit = 100, c_type = ''expense''\<rparr>,
     \<lparr>c_name = ''Salary'', c_budget_limit = 100, c_type = ''income''\<rparr>,
     \<lparr>c_name = ''Freelance'', c_budget_limit = 0, c_type = ''income''\<rparr>,
     \<lparr>c_name = ''Other Income'', c_budget_limit = 0, c_type = ''income''\<rparr>]"
  by (simp_all add: salary_db_def update_budget_limit_def add_transaction_def new_db_def
      default_categories_def Let_def)

lemma salary_db_join:
  "alert_join salary_db 2024 5 =
     [(\<lparr>t_id = 1, t_date = ''2024-05-03'', t_description = ''Salary advance repaid'',
        t_amount = 90, t_category = ''Salary'', t_type = ''expense''\<rparr>,
       \<lparr>c_name = ''Salary'', c_budget_limit = 100, c_type = ''income''\<rparr>)]"
  by (simp add: alert_join_def salary_db_tables may_bounds in_half_open_def str_le_def)

lemma salary_db_rows:
  "alert_rows salary_db 2024 5 =
     [\<lparr>a_category = ''Salary'', a_spent = 90, a_limit = 100, a_percentage = 90\<rparr>]"
  by (simp add: alert_rows_def salary_db_join group_sum_def)

text \<open>
  C1, as the specification states it, fails: the query joins on the category name and
  never reads the type of the category. \<open>Salary\<close> is an income category; with a limit of
  100 and an expense of 90 filed under it (the category the importer suggests for a
  negative amount described as \<open>Salary advance repaid\<close>), it is returned as an alert.
\<close>

theorem budget_alerts_counterexample:
  "get_suggested_category category_keywords ''Salary advance repaid'' (Num (- 90)) = ''Salary''
   \<and> filter (\<lambda>c. c_name c = ''Salary'') (categories salary_db) =
       [\<lparr>c_name = ''Salary'', c_budget_limit = 100, c_type = ''income''\<rparr>]
   \<and> check_budget_alerts salary_db 2024 5
       [\<lparr>a_category = ''Salary'', a_spent = 90, a_limit = 100, a_percentage = 90\<rparr>]"
proof -
  have "categorize category_keywords ''Salary advance repaid'' = ''Salary''"
    by code_simp
  then have "get_suggested_category category_keywords ''Salary advance repaid'' (Num (- 90))
             = ''Salary''"
    by (simp add: get_suggested_category_def)
  moreover have "filter (\<lambda>c. c_name c = ''Salary'') (categories salary_db) =
       [\<lparr>c_name = ''Salary'', c_budget_limit = 100, c_type = ''income''\<rparr>]"
    by (simp add: salary_db_tables)
  moreover have "check_budget_alerts salary_db 2024 5
       [\<lparr>a_category = ''Salary'', a_spent = 90, a_limit = 100, a_percentage = 90\<rparr>]"
    by (simp add: check_budget_alerts_def order_by_desc_def salary_db_rows)
  ultimately show ?thesis by blast
qed

lemma in_calendar_month_iso:
  assumes "0 \<le> year" "year \<le> 9999" "0 \<le> month" "month \<le> 12"
    and "fits_iso dt" "1 \<le> d_day dt" "d_day dt \<le> 31"
  shows "in_calendar_month year month (strftime_iso dt)
         \<longleftrightarrow> int (d_year dt) = year \<and> int (d_month dt) = month"
proof -
  have f: "fits_iso (Date (nat year) (nat month) day)" if "day < 32" for day
    using that assms(1-4) by (simp add: fits_iso_def; linarith)
  have "in_calendar_month year month (strftime_iso dt)
        \<longleftrightarrow> (\<exists>day \<in> {1 ..< 32}. strftime_iso dt = strftime_iso (Date (nat year) (nat month) day))"
    by (simp add: in_calendar_month_def list_ex_iff)
  also have "\<dots> \<longleftrightarrow> (\<exists>day \<in> {1 ..< 32}. dt = Date (nat year) (nat month) day)"
    using strftime_iso_inj [OF assms(5) f] by auto
  also have "\<dots> \<longleftrightarrow> int (d_year dt) = year \<and> int (d_month dt) = month"
    using assms by (cases dt) auto
  finally show ?thesis .
qed

lemma month_spent_calendar:
  assumes "1000 \<le> year" "year \<le> 9999" "1 \<le> month" "month \<le> 12"
    and "\<not> (year = 9999 \<and> month = 12)"
    and c: "\<forall>t \<in> set (transactions db). \<exists>dt. fits_iso dt \<and> 1 \<le> d_month dt \<and> d_month dt \<le> 12
              \<and> 1 \<le> d_day dt \<and> d_day dt \<le> 31 \<and> t_date t = strftime_iso dt"
  shows "month_spent db year month cat = calendar_spent db year month cat"
proof -
  have "in_half_open (month_start year month) (month_end year month) (t_date t)
        \<longleftrightarrow> in_calendar_month year month (t_date t)" if "t \<in> set (transactions db)" for t
  proof -
    from c that obtain dt where dt: "fits_iso dt" "1 \<le> d_month dt" "d_month dt \<le> 12"
      "1 \<le> d_day dt" "d_day dt \<le> 31" "t_date t = strftime_iso dt" by blast
    have y: "0 \<le> year" "0 \<le> month" using assms(1,3) by simp_all
    show ?thesis
      unfolding dt(6)
      using in_month_iff [OF assms(1-5) dt(1-4)]
        in_calendar_month_iso [OF y(1) assms(2) y(2) assms(4) dt(1,4,5)]
      by simp
  qed
  then have "filter (\<lambda>t. t_category t = cat \<and> t_type t = ''expense''
                  \<and> in_half_open (month_start year month) (month_end year month) (t_date t))
          (transactions db)
        = filter (\<lambda>t. t_category t = cat \<and> t_type t = ''expense''
                  \<and> in_calendar_month year month (t_date t)) (transactions db)"
    by (intro filter_cong) auto
  then show ?thesis by (simp add: month_spent_def calendar_spent_def)
qed


text \<open>
  C1, amended. Take a year from 1000 to 9999 and a month from 1 to 12, December 9999
  excepted, and a store whose category names are unique, as the schema requires, and
  whose transaction dates are canonical; amounts and limits are exact numbers. Then every
  result of \<open>check_budget_alerts\<close> holds exactly one alert for each category of the
  table, of either type, that has a limit above 0 and whose expense transactions dated in
  that calendar month sum to at least 0.8 times the limit. The alert carries the
  category, the sum, the limit and the percentage, which is the sum divided by the limit
  times 100. It carries no severity: the callers label it \<open>EXCEEDED\<close> when the
  percentage is at least 100 and \<open>WARNING\<close> otherwise. A category with limit 0 never
  appears, whatever was spent. Some result always exists. A canonical date is in the
  calendar month exactly when its year and month are the given ones.
\<close>

theorem budget_alerts_contents:
  assumes "1000 \<le> year" "year \<le> 9999" "1 \<le> month" "month \<le> 12"
    and "\<not> (year = 9999 \<and> month = 12)"
    and "distinct (map c_name (categories db))"
    and "\<forall>t \<in> set (transactions db). \<exists>dt. fits_iso dt \<and> 1 \<le> d_month dt \<and> d_month dt \<le> 12
              \<and> 1 \<le> d_day dt \<and> d_day dt \<le> 31 \<and> t_date t = strftime_iso dt"
    and "check_budget_alerts db year month alerts"
  shows
    "(\<forall>a. a \<in> set alerts \<longleftrightarrow>
        (\<exists>c \<in> set (categories db). 0 < c_budget_limit c
          \<and> c_budget_limit c * (8 / 10) \<le> calendar_spent db year month (c_name c)
          \<and> a = \<lparr>a_category = c_name c, a_spent = calendar_spent db year month (c_name c),
                 a_limit = c_budget_limit c,
                 a_percentage =
                   calendar_spent db year month (c_name c) / c_budget_limit c * 100\<rparr>))
     \<and> distinct alerts
     \<and> (\<forall>a \<in> set alerts. a_percentage a = a_spent a / a_limit a * 100
          \<and> alert_status a = (if 100 \<le> a_percentage a then EXCEEDED else WARNING))
     \<and> (\<forall>c \<in> set (categories db). c_budget_limit c = 0 \<longrightarrow>
          c_name c \<notin> a_category ` set alerts)
     \<and> (\<exists>out. check_budget_alerts db year month out)
     \<and> (\<forall>dt. fits_iso dt \<and> 1 \<le> d_day dt \<and> d_day dt \<le> 31 \<longrightarrow>
          (in_calendar_month year month (strftime_iso dt)
           \<longleftrightarrow> int (d_year dt) = year \<and> int (d_month dt) = month))"
proof -
  note sp = month_spent_calendar [OF assms(1-5) assms(7)]
  from assms(8) have s: "set alerts = set (alert_rows db year month)"
    by (simp add: check_budget_alerts_def order_by_desc_set)
  have m: "\<forall>a. a \<in> set alerts \<longleftrightarrow>
        (\<exists>c \<in> set (categories db). 0 < c_budget_limit c
          \<and> c_budget_limit c * (8 / 10) \<le> calendar_spent db year month (c_name c)
          \<and> a = \<lparr>a_category = c_name c, a_spent = calendar_spent db year month (c_name c),
                 a_limit = c_budget_limit c,
                 a_percentage =
                   calendar_spent db year month (c_name c) / c_budget_limit c * 100\<rparr>)"
    unfolding s using in_alert_rows [OF assms(6), of _ year month] unfolding sp by blast
  have "distinct (alert_rows db year month)"
    by (auto simp: alert_rows_def group_sum_def distinct_map inj_on_def
        intro!: distinct_filter)
  moreover from assms(8) have "mset alerts = mset (alert_rows db year month)"
    by (simp add: check_budget_alerts_def order_by_desc_def)
  ultimately have d: "distinct alerts" by (metis mset_eq_imp_distinct_iff)
  have p: "\<forall>a \<in> set alerts. a_percentage a = a_spent a / a_limit a * 100
          \<and> alert_status a = (if 100 \<le> a_percentage a then EXCEEDED else WARNING)"
    using m by (auto simp: alert_status_def)
  have z: "\<forall>c \<in> set (categories db). c_budget_limit c = 0 \<longrightarrow>
          c_name c \<notin> a_category ` set alerts"
  proof (intro ballI impI notI)
    fix c assume c: "c \<in> set (categories db)" "c_budget_limit c = 0"
      and "c_name c \<in> a_category ` set alerts"
    then obtain a where a: "a \<in> set alerts" "a_category a = c_name c" by auto
    with m obtain c' where c': "c' \<in> set (categories db)" "0 < c_budget_limit c'"
      "c_name c' = c_name c" by auto
    from same_name_same_row [OF assms(6) c'(1) c(1) c'(3)] c'(2) c(2) show False by simp
  qed
  have e: "\<exists>out. check_budget_alerts db year month out"
    unfolding check_budget_alerts_def using order_by_desc_exists by blast
  have y: "0 \<le> year" "0 \<le> month" using assms(1,3) by simp_all
  have q: "\<forall>dt. fits_iso dt \<and> 1 \<le> d_day dt \<and> d_day dt \<le> 31 \<longrightarrow>
          (in_calendar_month year month (strftime_iso dt)
           \<longleftrightarrow> int (d_year dt) = year \<and> int (d_month dt) = month)"
    using in_calendar_month_iso [OF y(1) assms(2) y(2) assms(4)] by blast
  from m d p z e q show ?thesis by blast
qed

lemma alerts_db_canonical:
  "\<forall>t \<in> set (transactions alerts_db). \<exists>dt. fits_iso dt \<and> 1 \<le> d_month dt \<and> d_month dt \<le> 12
       \<and> 1 \<le> d_day dt \<and> d_day dt \<le> 31 \<and> t_date t = strftime_iso dt"
proof -
  have i: "strftime_iso (Date 2024 5 2) = ''2024-05-02''"
    "strftime_iso (Date 2024 5 11) = ''2024-05-11''"
    "strftime_iso (Date 2024 5 20) = ''2024-05-20''"
    by (simp_all add: strftime_iso_def zfill_def str_nat.simps digit_char_simps)
  have "\<exists>dt. fits_iso dt \<and> 1 \<le> d_month dt \<and> d_month dt \<le> 12
       \<and> 1 \<le> d_day dt \<and> d_day dt \<le> 31 \<and> ''2024-05-02'' = strftime_iso dt"
    by (rule exI [of _ "Date 2024 5 2"]) (simp add: fits_iso_def i)
  moreover have "\<exists>dt. fits_iso dt \<and> 1 \<le> d_month dt \<and> d_month dt \<le> 12
       \<and> 1 \<le> d_day dt \<and> d_day dt \<le> 31 \<and> ''2024-05-11'' = strftime_iso dt"
    by (rule exI [of _ "Date 2024 5 11"]) (simp add: fits_iso_def i)
  moreover have "\<exists>dt. fits_iso dt \<and> 1 \<le> d_month dt \<and> d_month dt \<le> 12
       \<and> 1 \<le> d_day dt \<and> d_day dt \<le> 31 \<and> ''2024-05-20'' = strftime_iso dt"
    by (rule exI [of _ "Date 2024 5 20"]) (simp add: fits_iso_def i)
  ultimately show ?thesis by (simp add: alerts_db_tables)
qed

theorem budget_alerts_contents_witness:
  "distinct (map c_name (categories alerts_db))
   \<and> check_budget_alerts alerts_db 2024 5
       [\<lparr>a_category = ''Shopping'', a_spent = 120, a_limit = 100, a_percentage = 120\<rparr>,
        \<lparr>a_category = ''Other Expenses'', a_spent = 82, a_limit = 100, a_percentage = 82\<rparr>]
   \<and> alert_status
        \<lparr>a_category = ''Shopping'', a_spent = 120, a_limit = 100, a_percentage = 120\<rparr>
       = EXCEEDED
   \<and> alert_status
        \<lparr>a_category = ''Other Expenses'', a_spent = 82, a_limit = 100, a_percentage = 82\<rparr>
       = WARNING
   \<and> \<lparr>c_name = ''Healthcare'', c_budget_limit = 0, c_type = ''expense''\<rparr>
        \<in> set (categories alerts_db)
   \<and> ''Healthcare'' \<notin> a_category `
        set [\<lparr>a_category = ''Shopping'', a_spent = 120, a_limit = 100, a_percentage = 120\<rparr>,
             \<lparr>a_category = ''Other Expenses'', a_spent = 82, a_limit = 100,
               a_percentage = 82\<rparr>]
   \<and> in_calendar_month 2024 5 (strftime_iso (Date 2024 5 31))
   \<and> \<not> in_calendar_month 2024 5 (strftime_iso (Date 2024 6 1))"
proof -
  let ?a1 = "\<lparr>a_category = ''Shopping'', a_spent = 120, a_limit = 100, a_percentage = 120\<rparr>"
  let ?a2 = "\<lparr>a_category = ''Other Expenses'', a_spent = 82, a_limit = 100,
               a_percentage = 82\<rparr>"
  let ?h = "\<lparr>c_name = ''Healthcare'', c_budget_limit = 0, c_type = ''expense''\<rparr>"
  have r: "(1000::int) \<le> 2024" "(2024::int) \<le> 9999" "(1::int) \<le> 5" "(5::int) \<le> 12"
    "\<not> ((2024::int) = 9999 \<and> (5::int) = 12)"
    by simp_all
  have d: "distinct (map c_name (categories alerts_db))"
    by (simp add: alerts_db_tables)
  have c: "check_budget_alerts alerts_db 2024 5 [?a1, ?a2]"
    by (simp add: check_budget_alerts_def order_by_desc_def alerts_db_rows)
  note t = budget_alerts_contents [OF r d alerts_db_canonical c]
  from t have p: "\<forall>a \<in> set [?a1, ?a2].
       alert_status a = (if 100 \<le> a_percentage a then EXCEEDED else WARNING)"
    by blast
  have s1: "alert_status ?a1 = EXCEEDED" using p by simp
  have s2: "alert_status ?a2 = WARNING" using p by simp
  have h: "?h \<in> set (categories alerts_db)" by (simp add: alerts_db_tables)
  from t have "\<forall>c \<in> set (categories alerts_db). c_budget_limit c = 0 \<longrightarrow>
          c_name c \<notin> a_category ` set [?a1, ?a2]"
    by blast
  from this h have "c_budget_limit ?h = 0 \<longrightarrow> c_name ?h \<notin> a_category ` set [?a1, ?a2]"
    by (rule bspec)
  then have z: "''Healthcare'' \<notin> a_category ` set [?a1, ?a2]" by simp
  from t have q: "\<forall>dt. fits_iso dt \<and> 1 \<le> d_day dt \<and> d_day dt \<le> 31 \<longrightarrow>
          (in_calendar_month 2024 5 (strftime_iso dt)
           \<longleftrightarrow> int (d_year dt) = 2024 \<and> int (d_month dt) = 5)"
    by blast
  have i: "in_calendar_month 2024 5 (strftime_iso (Date 2024 5 31))"
    using q [rule_format, of "Date 2024 5 31"] by (simp add: fits_iso_def)
  have o: "\<not> in_calendar_month 2024 5 (strftime_iso (Date 2024 6 1))"
    using q [rule_format, of "Date 2024 6 1"] by (simp add: fits_iso_def)
  from d c s1 s2 h z i o show ?thesis by blast
qed

lemma tie_db_rows:
  "category_spending_rows tie_db ''2024-05-01'' ''2024-05-31'' =
     [(''Entertainment'', 50), (''Healthcare'', 50)]"
proof -
  have "transactions tie_db =
     [\<lparr>t_id = 1, t_date = ''2024-05-04'', t_description = ''Cinema'', t_amount = 50,
       t_category = ''Entertainment'', t_type = ''expense''\<rparr>,
      \<lparr>t_id = 2, t_date = ''2024-05-09'', t_description = ''Pharmacy'', t_amount = 50,
       t_category = ''Healthcare'', t_type = ''expense''\<rparr>]"
    by (simp add: tie_db_def add_transaction_def new_db_def Let_def)
  then show ?thesis
    by (simp add: category_spending_rows_def group_sum_def in_between_def str_le_def)
qed

lemma alert_tie_db_rows:
  "alert_rows alert_tie_db 2024 5 =
     [\<lparr>a_category = ''Food & Dining'', a_spent = 500, a_limit = 500, a_percentage = 100\<rparr>,
      \<lparr>a_category = ''Shopping'', a_spent = 300, a_limit = 300, a_percentage = 100\<rparr>]"
proof -
  have t: "transactions alert_tie_db =
     [\<lparr>t_id = 1, t_date = ''2024-05-04'', t_description = ''Groceries'', t_amount = 500,
       t_category = ''Food & Dining'', t_type = ''expense''\<rparr>,
      \<lparr>t_id = 2, t_date = ''2024-05-09'', t_description = ''Mall'', t_amount = 300,
       t_category = ''Shopping'', t_type = ''expense''\<rparr>]"
    "categories alert_tie_db = default_categories"
    by (simp_all add: alert_tie_db_def add_transaction_def new_db_def Let_def)
  have "alert_join alert_tie_db 2024 5 =
     [(\<lparr>t_id = 1, t_date = ''2024-05-04'', t_description = ''Groceries'', t_amount = 500,
        t_category = ''Food & Dining'', t_type = ''expense''\<rparr>,
       \<lparr>c_name = ''Food & Dining'', c_budget_limit = 500, c_type = ''expense''\<rparr>),
      (\<lparr>t_id = 2, t_date = ''2024-05-09'', t_description = ''Mall'', t_amount = 300,
        t_category = ''Shopping'', t_type = ''expense''\<rparr>,
       \<lparr>c_name = ''Shopping'', c_budget_limit = 300, c_type = ''expense''\<rparr>)]"
    by (simp add: alert_join_def t default_categories_def may_bounds in_half_open_def
        str_le_def)
  then show ?thesis
    by (simp add: alert_rows_def group_sum_def)
qed

text \<open>
  C3, as the specification states it, fails on the tie rule: each query orders by one key
  and names no second one, so rows with equal keys may come in either order. With two
  categories at the same total, and two at the same percentage, the arrangement with the
  names in descending order is a result of each query.
\<close>

theorem result_order_counterexample:
  "get_category_spending tie_db ''2024-05-01'' ''2024-05-31''
     [(''Healthcare'', 50), (''Entertainment'', 50)]
   \<and> str_less ''Entertainment'' ''Healthcare''
   \<and> check_budget_alerts alert_tie_db 2024 5
       [\<lparr>a_category = ''Shopping'', a_spent = 300, a_limit = 300, a_percentage = 100\<rparr>,
        \<lparr>a_category = ''Food & Dining'', a_spent = 500, a_limit = 500, a_percentage = 100\<rparr>]
   \<and> str_less ''Food & Dining'' ''Shopping''"
proof -
  have "get_category_spending tie_db ''2024-05-01'' ''2024-05-31''
     [(''Healthcare'', 50), (''Entertainment'', 50)]"
    by (simp add: get_category_spending_def order_by_desc_def tie_db_rows)
  moreover have "str_less ''Entertainment'' ''Healthcare''" by simp
  moreover have "check_budget_alerts alert_tie_db 2024 5
       [\<lparr>a_category = ''Shopping'', a_spent = 300, a_limit = 300, a_percentage = 100\<rparr>,
        \<lparr>a_category = ''Food & Dining'', a_spent = 500, a_limit = 500, a_percentage = 100\<rparr>]"
    by (simp add: check_budget_alerts_def order_by_desc_def alert_tie_db_rows)
  moreover have "str_less ''Food & Dining'' ''Shopping''" by simp
  ultimately show ?thesis by blast
qed

text \<open>
  C3, amended. Every result of \<open>get_category_spending\<close> holds the (category, total)
  pairs of the range in an order where the total never increases, and every result of
  \<open>check_budget_alerts\<close> holds the alerts in an order where the percentage never
  increases. Each query has a result. The order is determined when the totals, or the
  percentages, differ pairwise; among rows with equal keys the code fixes no order.
\<close>

theorem result_order:
  "(get_category_spending db start_date end_date out \<longrightarrow>
      sorted_wrt (\<lambda>a b. snd b \<le> snd a) out
      \<and> mset out = mset (category_spending_rows db start_date end_date))
   \<and> (check_budget_alerts db year month alerts \<longrightarrow>
      sorted_wrt (\<lambda>a b. a_percentage b \<le> a_percentage a) alerts
      \<and> mset alerts = mset (alert_rows db year month))
   \<and> (\<exists>r. get_category_spending db start_date end_date r)
   \<and> (\<exists>r. check_budget_alerts db year month r)
   \<and> (distinct (map snd (category_spending_rows db start_date end_date))
        \<and> get_category_spending db start_date end_date out
        \<and> get_category_spending db start_date end_date out' \<longrightarrow> out = out')
   \<and> (distinct (map a_percentage (alert_rows db year month))
        \<and> check_budget_alerts db year month alerts
        \<and> check_budget_alerts db year month alerts' \<longrightarrow> alerts = alerts')"
proof -
  have "get_category_spending db start_date end_date out \<longrightarrow>
      sorted_wrt (\<lambda>a b. snd b \<le> snd a) out
      \<and> mset out = mset (category_spending_rows db start_date end_date)"
    by (simp add: get_category_spending_def order_by_desc_def)
  moreover have "check_budget_alerts db year month alerts \<longrightarrow>
      sorted_wrt (\<lambda>a b. a_percentage b \<le> a_percentage a) alerts
      \<and> mset alerts = mset (alert_rows db year month)"
    by (simp add: check_budget_alerts_def order_by_desc_def)
  moreover have "\<exists>r. get_category_spending db start_date end_date r"
    unfolding get_category_spending_def using order_by_desc_exists by blast
  moreover have "\<exists>r. check_budget_alerts db year month r"
    unfolding check_budget_alerts_def using order_by_desc_exists by blast
  moreover have "distinct (map snd (category_spending_rows db start_date end_date))
        \<and> get_category_spending db start_date end_date out
        \<and> get_category_spending db start_date end_date out' \<longrightarrow> out = out'"
    unfolding get_category_spending_def using order_by_desc_unique by blast
  moreover have "distinct (map a_percentage (alert_rows db year month))
        \<and> check_budget_alerts db year month alerts
        \<and> check_budget_alerts db year month alerts' \<longrightarrow> alerts = alerts'"
    unfolding check_budget_alerts_def using order_by_desc_unique by blast
  ultimately show ?thesis by blast
qed


lemma alerts_db_spending:
  "category_spending_rows alerts_db ''2024-05-01'' ''2024-05-31'' =
     [(''Shopping'', 120), (''Other Expenses'', 82), (''Healthcare'', 500)]"
  by (simp add: category_spending_rows_def alerts_db_tables group_sum_def in_between_def
      str_le_def)

theorem result_order_witness:
  "get_category_spending alerts_db ''2024-05-01'' ''2024-05-31''
     [(''Healthcare'', 500), (''Shopping'', 120), (''Other Expenses'', 82)]
   \<and> sorted_wrt (\<lambda>a b. snd b \<le> snd a)
        [(''Healthcare'', 500 :: rat), (''Shopping'', 120), (''Other Expenses'', 82)]
   \<and> distinct (map snd (category_spending_rows alerts_db ''2024-05-01'' ''2024-05-31''))
   \<and> check_budget_alerts alerts_db 2024 5
       [\<lparr>a_category = ''Shopping'', a_spent = 120, a_limit = 100, a_percentage = 120\<rparr>,
        \<lparr>a_category = ''Other Expenses'', a_spent = 82, a_limit = 100, a_percentage = 82\<rparr>]
   \<and> distinct (map a_percentage (alert_rows alerts_db 2024 5))"
proof -
  let ?out = "[(''Healthcare'', 500 :: rat), (''Shopping'', 120), (''Other Expenses'', 82)]"
  let ?al = "[\<lparr>a_category = ''Shopping'', a_spent = 120, a_limit = 100, a_percentage = 120\<rparr>,
        \<lparr>a_category = ''Other Expenses'', a_spent = 82, a_limit = 100, a_percentage = 82\<rparr>]"
  have g: "get_category_spending alerts_db ''2024-05-01'' ''2024-05-31'' ?out"
    by (simp add: get_category_spending_def order_by_desc_def alerts_db_spending)
  have c: "check_budget_alerts alerts_db 2024 5 ?al"
    by (simp add: check_budget_alerts_def order_by_desc_def alerts_db_rows)
  have d1: "distinct (map snd (category_spending_rows alerts_db ''2024-05-01'' ''2024-05-31''))"
    by (simp add: alerts_db_spending)
  have d2: "distinct (map a_percentage (alert_rows alerts_db 2024 5))"
    by (simp add: alerts_db_rows)
  note t = result_order [of alerts_db "''2024-05-01''" "''2024-05-31''" ?out 2024 5 ?al ?out ?al]
  from t g have s: "sorted_wrt (\<lambda>a b. snd b \<le> snd a) ?out" by blast
  from g s d1 c d2 show ?thesis by blast
qed

subsection \<open>Claims about the amounts that the normaliser reads\<close>

lemma replace_Nil: "replace old new [] = []"
  by (simp add: replace.simps)

lemma replace_Cons:
  "old \<noteq> [] \<Longrightarrow> replace old new (c # cs) =
     (if prefix old (c # cs) then new @ replace old new (drop (length old) (c # cs))
      else c # replace old new cs)"
  by (subst replace.simps) simp

lemma replace_delete_char: "replace [x] [] s = filter (\<lambda>c. c \<noteq> x) s"
  by (induction s) (simp_all add: replace_Nil replace_Cons)


lemma replace_absent: "old \<noteq> [] \<Longrightarrow> hd old \<notin> set s \<Longrightarrow> replace old new s = s"
proof (induction s)
  case Nil
  then show ?case by (simp add: replace_Nil)
next
  case (Cons c cs)
  from Cons.prems have "\<not> prefix old (c # cs)"
    by (cases old) (auto simp: prefix_Cons)
  with Cons show ?case by (simp add: replace_Cons)
qed







lemma is_digit_cases:
  "is_digit c \<Longrightarrow> c \<in> set ''0123456789''"
  by (simp add: is_digit_def)























subsection \<open>The sample rows of the importer\<close>

lemma compiled_formats:
  "compile_format ''%Y-%m-%d'' =
     [Field CHR ''Y'', Literal CHR ''-'', Field CHR ''m'', Literal CHR ''-'', Field CHR ''d'']"
  "compile_format ''%m/%d/%Y'' =
     [Field CHR ''m'', Literal CHR ''/'', Field CHR ''d'', Literal CHR ''/'', Field CHR ''Y'']"
  "compile_format ''%d/%m/%Y'' =
     [Field CHR ''d'', Literal CHR ''/'', Field CHR ''m'', Literal CHR ''/'', Field CHR ''Y'']"
  "compile_format ''%Y/%m/%d'' =
     [Field CHR ''Y'', Literal CHR ''/'', Field CHR ''m'', Literal CHR ''/'', Field CHR ''d'']"
  "compile_format ''%m-%d-%Y'' =
     [Field CHR ''m'', Literal CHR ''-'', Field CHR ''d'', Literal CHR ''-'', Field CHR ''Y'']"
  "compile_format ''%d-%m-%Y'' =
     [Field CHR ''d'', Literal CHR ''-'', Field CHR ''m'', Literal CHR ''-'', Field CHR ''Y'']"
  "compile_format ''%b %d, %Y'' =
     [Field CHR ''b'', Whitespace, Field CHR ''d'', Literal CHR '','', Whitespace,
      Field CHR ''Y'']"
  "compile_format ''%B %d, %Y'' =
     [Field CHR ''B'', Whitespace, Field CHR ''d'', Literal CHR '','', Whitespace,
      Field CHR ''Y'']"
  by (simp_all add: is_space_def)

lemmas match_eval =
  directive_re_def field_re_def then_m_def or_m_def chr_in_def digit_m_def nonzero_m_def
  word_m_def words_m_def spaces_m_def group_def lower_def lower_char_def is_space_def
  a_month_def f_month_def month_abbr_def month_name_def

lemmas strptime_eval =
  strptime_def compiled_formats match_eval int_digits_def digit_val_def
  strip_def valid_date_def days_in_month_def is_leap_def index_of_def

lemma strptime_coffee: "strptime ''2024-01-15'' ''%Y-%m-%d'' = Inr (Date 2024 1 15)"
  by (simp add: strptime_eval)

lemma strftime_coffee:
  "strftime_date padded (Date 2024 1 15) = ''2024-01-15''"
  "strftime_date padded (Date 2024 (Suc 0) 15) = ''2024-01-15''"
  by (simp_all add: strftime_date_def zfill_def str_nat.simps digit_char_simps)

lemma parse_date_coffee: "parse_date padded ''2024-01-15'' = Inr ''2024-01-15''"
  by (simp add: parse_date_def date_formats_def strip_def is_space_def strptime_coffee
      strftime_coffee)






lemma parse_amount_zero: "parse_amount ''0.00'' = Inr (Num 0)"
  by (simp add: parse_amount_def strip_def is_space_def replace_delete_char replace_absent
      euro_def pound_def py_float_def c_trim_def c_isspace_def float_literal_def
      split_sign_def lower_def lower_char_def is_digit_def exponent_def int_digits_def
      digit_val_def pow10_def round_double_def)

lemma categorize_coffee: "categorize category_keywords ''Coffee'' = ''Other Expenses''"
  by code_simp





subsection \<open>The loops of the importer\<close>














subsection \<open>Claims about the importer\<close>




text \<open>
  C10. A row whose date is read, whose description is a text and whose amount parses to
  exactly 0 is appended as a transaction of type \<open>expense\<close> with amount 0 and with the
  category that \<open>categorize\<close> gives: the test for income is \<open>amount > 0\<close>. The row is
  not skipped, and nothing is printed for it.
\<close>

theorem zero_amount_is_expense:
  assumes "parse_date padded d = Inr date" and "parse_amount a = Inr (Num 0)"
  shows
    "parse_row padded (Some d) (Some desc) (Some a) =
       Appended \<lparr>p_date = date, p_description = desc, p_amount = Num 0,
                 p_category = categorize category_keywords desc, p_type = ''expense''\<rparr>
     \<and> parse_csv padded (ListRows [[d, desc, a]]) dc sc ac =
         ([], Inr [\<lparr>p_date = date, p_description = desc, p_amount = Num 0,
                    p_category = categorize category_keywords desc, p_type = ''expense''\<rparr>])
     \<and> \<not> gt_zero (Num 0)"
proof -
  have r: "parse_row padded (Some d) (Some desc) (Some a) =
       Appended \<lparr>p_date = date, p_description = desc, p_amount = Num 0,
                 p_category = categorize category_keywords desc, p_type = ''expense''\<rparr>"
    using assms by (simp add: parse_row_def on_str_def get_suggested_category_def)
  then show ?thesis
    by (simp add: parse_csv_def list_row_def)
qed

theorem zero_amount_is_expense_witness:
  "parse_date True ''2024-01-15'' = Inr ''2024-01-15''
   \<and> parse_amount ''0.00'' = Inr (Num 0)
   \<and> parse_csv True (ListRows [[''2024-01-15'', ''Coffee'', ''0.00'']]) ''Date''
        ''Description'' ''Amount''
      = ([], Inr [\<lparr>p_date = ''2024-01-15'', p_description = ''Coffee'', p_amount = Num 0,
                   p_category = ''Other Expenses'', p_type = ''expense''\<rparr>])"
  using zero_amount_is_expense [OF parse_date_coffee parse_amount_zero, of True "''Coffee''"
      "''Date''" "''Description''" "''Amount''"]
  by (simp add: parse_date_coffee parse_amount_zero categorize_coffee)

end
